theory Spec2Isabelle
  imports Complex_Main
begin

section \<open>Dense vectors and matrices\<close>

text \<open>
  The scalar type \<open>T\<close> of the program is \<open>double\<close>; it is modelled by \<open>real\<close>, so
  every statement below is about the exact arithmetic the floating-point code approximates.
  A \<open>blaze::DynamicVector<T>\<close> is a list of scalars and a \<open>blaze::DynamicMatrix<T>\<close> the
  list of its rows. The quantities of type \<open>size_t\<close> that index or size a container are
  natural numbers: \<open>initialize\<close> allocates two vectors of \<open>sys_size\<close> scalars and the
  triplet list grows by \<open>basis_size * basis_size\<close> entries with every block, so the model
  covers the runs in which \<open>basis_size * num_cells\<close> stays below \<open>2^64\<close>, where no
  index computation of the assembler wraps.
\<close>

type_synonym vec = "real list"
type_synonym mat = "real list list"

definition elem :: "mat \<Rightarrow> nat \<Rightarrow> nat \<Rightarrow> real" where
  "elem A i j = A ! i ! j"

section \<open>Sparse matrices and triplets\<close>

record triplet =
  row :: nat
  col :: nat
  val :: real

text \<open>
  A \<open>blaze::CompressedMatrix<T>\<close>: its dimensions and the stored entries, a finite map
  from coordinates to values. A coordinate that is not stored reads as zero.
\<close>

record sparse =
  nrows :: nat
  ncols :: nat
  entries :: "nat \<times> nat \<rightharpoonup> real"

definition sparse_empty :: sparse where
  "sparse_empty = \<lparr>nrows = 0, ncols = 0, entries = Map.empty\<rparr>"

definition resize_sparse :: "sparse \<Rightarrow> nat \<Rightarrow> nat \<Rightarrow> sparse" where
  "resize_sparse M m n = M\<lparr>nrows := m, ncols := n\<rparr>"

definition entry_at :: "sparse \<Rightarrow> nat \<Rightarrow> nat \<Rightarrow> real" where
  "entry_at M r c = (case entries M (r, c) of None \<Rightarrow> 0 | Some v \<Rightarrow> v)"

text \<open>
  Modelled from the spec: the step of \<open>blaze::init_from_triplets\<close> for one triplet. An
  entry with the coordinate of an entry already stored is added to it.
\<close>

definition add_entry :: "(nat \<times> nat \<rightharpoonup> real) \<Rightarrow> triplet \<Rightarrow> (nat \<times> nat \<rightharpoonup> real)" where
  "add_entry m t =
     m((row t, col t) \<mapsto> (case m (row t, col t) of None \<Rightarrow> val t | Some w \<Rightarrow> w + val t))"

text \<open>
  Modelled from the spec: \<open>blaze::init_from_triplets\<close> of \<open>core/blaze_sparse_init.hpp\<close>,
  which is not among the sources. The specification says that the sparse structure is
  built from an ordered list of (row, col, value) entries and that entries with equal
  (row, col) are summed when the structure is finalized. The matrix is built from the
  given range of triplets alone, read in order.
\<close>

definition init_from_triplets :: "sparse \<Rightarrow> triplet list \<Rightarrow> sparse" where
  "init_from_triplets M ts = M\<lparr>entries := foldl add_entry Map.empty ts\<rparr>"

text \<open>The sum of the values of all triplets of a list that sit at one coordinate.\<close>

definition coord_sum :: "triplet list \<Rightarrow> nat \<Rightarrow> nat \<Rightarrow> real" where
  "coord_sum ts r c = sum_list (map val (filter (\<lambda>t. row t = r \<and> col t = c) ts))"

section \<open>The mesh and its collaborators\<close>

type_synonym point = "real \<times> real"

record quadrature_point =
  qp_point :: point
  qp_weight :: real

text \<open>
  A local basis (\<open>core/bases.hpp\<close>, not among the sources) is known through its
  interface: \<open>size()\<close>, \<open>eval\<close> and \<open>eval_grads\<close>. The gradients are the rows of a
  \<open>size() \<times> 2\<close> matrix.
\<close>

record basis =
  bsize :: nat
  basis_eval :: "point \<Rightarrow> vec"
  basis_eval_grads :: "point \<Rightarrow> mat"

text \<open>
  The mesh (\<open>core/mesh.hpp\<close>, \<open>core/quadratures.hpp\<close>, \<open>core/bases.hpp\<close>, none among the
  sources) is taken as a parameter: the free functions the solver calls on it are the
  fields of a record. \<open>make_basis\<close> is partial: \<open>None\<close> stands for a cell handle on
  which the construction of a basis is not defined.
\<close>

record ('c, 'f) mesh =
  cells :: "'c list"
  offset :: "'c \<Rightarrow> nat"
  faces :: "'c \<Rightarrow> 'f list"
  neighbour_via :: "'c \<Rightarrow> 'f \<Rightarrow> 'c \<times> bool"
  normal :: "'c \<Rightarrow> 'f \<Rightarrow> vec"
  face_diameter :: "'f \<Rightarrow> real"
  integrate_cell :: "'c \<Rightarrow> nat \<Rightarrow> quadrature_point list"
  integrate_face :: "'f \<Rightarrow> nat \<Rightarrow> quadrature_point list"
  make_basis :: "'c \<Rightarrow> nat \<Rightarrow> basis option"
  scalar_basis_size :: "nat \<Rightarrow> nat \<Rightarrow> nat"

section \<open>The assembler\<close>

text \<open>
  The ways a run ends early: \<open>std::invalid_argument\<close> thrown by the assembler, an
  \<open>assert\<close> of the source that does not hold (assertions are compiled in), and the
  construction of a basis on a handle where it is not defined.
\<close>

datatype error = Invalid_argument | Assertion_failed | Basis_undefined

record assembler =
  triplets :: "triplet list"
  pc_triplets :: "triplet list"
  sys_size :: nat
  basis_size :: nat
  build_pc :: bool
  lhs :: sparse
  rhs :: vec
  pc :: sparse
  pc_temp :: vec

text \<open>
  The default constructor sets \<open>sys_size\<close> and \<open>basis_size\<close> to zero and leaves
  \<open>build_pc\<close> uninitialized: its value is the parameter \<open>b\<close>.
\<close>

definition assembler_default :: "bool \<Rightarrow> assembler" where
  "assembler_default b =
     \<lparr>triplets = [], pc_triplets = [], sys_size = 0, basis_size = 0, build_pc = b,
      lhs = sparse_empty, rhs = [], pc = sparse_empty, pc_temp = []\<rparr>"

text \<open>
  \<open>resize\<close> of a dense vector keeps the leading elements; the elements it adds are not
  initialized by the source and are zero here.
\<close>

definition resize_vec :: "vec \<Rightarrow> nat \<Rightarrow> vec" where
  "resize_vec v n = take n v @ replicate (n - length v) 0"

text \<open>
  \<open>initialize(msh, degree, bpc)\<close>. The last statement of the source is
  \<open>build_pc = true\<close>: the parameter \<open>bpc\<close> is not read.
\<close>

definition initialize :: "('c, 'f) mesh \<Rightarrow> nat \<Rightarrow> bool \<Rightarrow> assembler \<Rightarrow> assembler" where
  "initialize msh degree bpc a =
     (let bs = scalar_basis_size msh degree 2;
          ss = bs * length (cells msh)
      in a\<lparr>basis_size := bs, sys_size := ss,
           lhs := resize_sparse (lhs a) ss ss,
           rhs := resize_vec (rhs a) ss,
           pc := resize_sparse (pc a) ss ss,
           pc_temp := replicate ss 0,
           build_pc := True\<rparr>)"

text \<open>The constructor \<open>assembler(msh, degree, bpc)\<close> calls \<open>initialize\<close>.\<close>

definition assembler_new :: "('c, 'f) mesh \<Rightarrow> nat \<Rightarrow> bool \<Rightarrow> bool \<Rightarrow> assembler" where
  "assembler_new msh degree bpc b = initialize msh degree bpc (assembler_default b)"

text \<open>The body of the inner loop of both \<open>assemble\<close> overloads.\<close>

definition assemble_entry :: "nat \<Rightarrow> nat \<Rightarrow> real \<Rightarrow> assembler \<Rightarrow> assembler" where
  "assemble_entry ci cj v a =
     (let a1 = a\<lparr>triplets := triplets a @ [\<lparr>row = ci, col = cj, val = v\<rparr>]\<rparr>
      in if build_pc a1 \<and> ci = cj
         then a1\<lparr>pc_temp := (pc_temp a1)[ci := pc_temp a1 ! ci + v]\<rparr>
         else a1)"

definition assemble_row :: "nat \<Rightarrow> nat \<Rightarrow> mat \<Rightarrow> nat \<Rightarrow> assembler \<Rightarrow> assembler" where
  "assemble_row cl_a_ofs cl_b_ofs local_rhs i a =
     (let ci = cl_a_ofs + i
      in foldl (\<lambda>s j. assemble_entry ci (cl_b_ofs + j) (elem local_rhs i j) s) a
           [0..<basis_size a])"

text \<open>\<open>assemble(msh, cl_a, cl_b, local_rhs)\<close>: the result of the call and the assembler after it.\<close>

definition assemble ::
  "('c, 'f) mesh \<Rightarrow> 'c \<Rightarrow> 'c \<Rightarrow> mat \<Rightarrow> assembler \<Rightarrow> (error + bool) \<times> assembler" where
  "assemble msh cl_a cl_b local_rhs a =
     (if sys_size a = 0 \<or> basis_size a = 0 then (Inl Invalid_argument, a)
      else
        let cl_a_ofs = offset msh cl_a * basis_size a;
            cl_b_ofs = offset msh cl_b * basis_size a
        in (Inr True,
            foldl (\<lambda>s i. assemble_row cl_a_ofs cl_b_ofs local_rhs i s) a [0..<basis_size a]))"

text \<open>\<open>assemble(msh, cl, local_rhs, local_lhs)\<close>, the overload that also writes the right-hand side.\<close>

definition assemble_rhs_row :: "nat \<Rightarrow> mat \<Rightarrow> vec \<Rightarrow> nat \<Rightarrow> assembler \<Rightarrow> assembler" where
  "assemble_rhs_row cl_ofs local_rhs local_lhs i a =
     (let ci = cl_ofs + i;
          a1 = assemble_row cl_ofs cl_ofs local_rhs i a
      in a1\<lparr>rhs := (rhs a1)[ci := local_lhs ! i]\<rparr>)"

definition assemble_rhs ::
  "('c, 'f) mesh \<Rightarrow> 'c \<Rightarrow> mat \<Rightarrow> vec \<Rightarrow> assembler \<Rightarrow> (error + bool) \<times> assembler" where
  "assemble_rhs msh cl local_rhs local_lhs a =
     (if sys_size a = 0 \<or> basis_size a = 0 then (Inl Invalid_argument, a)
      else
        let cl_ofs = offset msh cl * basis_size a
        in (Inr True,
            foldl (\<lambda>s i. assemble_rhs_row cl_ofs local_rhs local_lhs i s) a [0..<basis_size a]))"

text \<open>
  The loop of \<open>finalize\<close> over the diagonal accumulators. The assertion
  \<open>std::abs(pc_temp[i]) > 1e-2\<close> stops the program at the first index where it fails.
\<close>

fun finalize_pc_loop :: "nat list \<Rightarrow> assembler \<Rightarrow> (error + unit) \<times> assembler" where
  "finalize_pc_loop [] a = (Inr (), a)"
| "finalize_pc_loop (i # is) a =
     (if \<not> (\<bar>pc_temp a ! i\<bar> > 1 / 100) then (Inl Assertion_failed, a)
      else finalize_pc_loop is
             (a\<lparr>pc_triplets := pc_triplets a @ [\<lparr>row = i, col = i, val = 1 / pc_temp a ! i\<rparr>]\<rparr>))"

definition finalize :: "assembler \<Rightarrow> (error + unit) \<times> assembler" where
  "finalize a =
     (if sys_size a = 0 \<or> basis_size a = 0 then (Inl Invalid_argument, a)
      else
        let a1 = a\<lparr>lhs := init_from_triplets (lhs a) (triplets a)\<rparr>;
            a2 = a1\<lparr>triplets := []\<rparr>
        in if build_pc a2
           then (case finalize_pc_loop [0..<length (pc_temp a2)] a2 of
                   (Inl e, a3) \<Rightarrow> (Inl e, a3)
                 | (Inr u, a3) \<Rightarrow>
                     (Inr (), a3\<lparr>pc := init_from_triplets (pc a3) (pc_triplets a3),
                                 pc_triplets := []\<rparr>))
           else (Inr (), a2))"

text \<open>
  A sequence of calls of the two overloads, run in order; an exception ends the sequence.
\<close>

datatype 'c call = Block 'c 'c mat | Cell 'c mat vec

fun assemble_call :: "('c, 'f) mesh \<Rightarrow> 'c call \<Rightarrow> assembler \<Rightarrow> (error + bool) \<times> assembler" where
  "assemble_call msh (Block cl_a cl_b local_rhs) s = assemble msh cl_a cl_b local_rhs s"
| "assemble_call msh (Cell cl local_rhs local_lhs) s = assemble_rhs msh cl local_rhs local_lhs s"

fun assemble_all ::
  "('c, 'f) mesh \<Rightarrow> 'c call list \<Rightarrow> assembler \<Rightarrow> (error + bool) \<times> assembler" where
  "assemble_all msh [] s = (Inr True, s)"
| "assemble_all msh (c # cs) s =
     (case assemble_call msh c s of
        (Inl e, s') \<Rightarrow> (Inl e, s')
      | (Inr b, s') \<Rightarrow> assemble_all msh cs s')"

text \<open>
  The triplets one row of a block, a whole block and one call contribute; these lists
  describe the result of the loops of \<open>assemble\<close> in the lemmas below.
\<close>

definition row_triplets :: "nat \<Rightarrow> nat \<Rightarrow> nat \<Rightarrow> mat \<Rightarrow> nat \<Rightarrow> triplet list" where
  "row_triplets bs oa ob block i =
     map (\<lambda>j. \<lparr>row = oa + i, col = ob + j, val = elem block i j\<rparr>) [0..<bs]"

definition block_triplets :: "nat \<Rightarrow> nat \<Rightarrow> nat \<Rightarrow> mat \<Rightarrow> triplet list" where
  "block_triplets bs oa ob block = concat (map (row_triplets bs oa ob block) [0..<bs])"

fun call_triplets :: "('c, 'f) mesh \<Rightarrow> nat \<Rightarrow> 'c call \<Rightarrow> triplet list" where
  "call_triplets msh bs (Block cl_a cl_b m) =
     block_triplets bs (offset msh cl_a * bs) (offset msh cl_b * bs) m"
| "call_triplets msh bs (Cell cl m v) =
     block_triplets bs (offset msh cl * bs) (offset msh cl * bs) m"

section \<open>Dense linear algebra of the local operators\<close>

text \<open>
  The Blaze expressions of the solvers. A product is evaluated from the left, so
  \<open>w * c * phi * trans(psi)\<close> scales \<open>phi\<close> by \<open>w * c\<close> and then forms the outer product
  with \<open>psi\<close>. The operands of the source have matching sizes (every local vector has
  \<open>size()\<close> entries); Blaze rejects other operands.
\<close>

definition zero_vec :: "nat \<Rightarrow> vec" where
  "zero_vec n = replicate n 0"

definition zero_mat :: "nat \<Rightarrow> nat \<Rightarrow> mat" where
  "zero_mat m n = replicate m (replicate n 0)"

definition vsmult :: "real \<Rightarrow> vec \<Rightarrow> vec" where
  "vsmult c v = map (\<lambda>x. c * x) v"

definition vadd :: "vec \<Rightarrow> vec \<Rightarrow> vec" where
  "vadd u v = map2 (+) u v"

definition vsub :: "vec \<Rightarrow> vec \<Rightarrow> vec" where
  "vsub u v = map2 (-) u v"

definition dot :: "vec \<Rightarrow> vec \<Rightarrow> real" where
  "dot u v = sum_list (map2 (*) u v)"

definition outer :: "vec \<Rightarrow> vec \<Rightarrow> mat" where
  "outer u v = map (\<lambda>a. map (\<lambda>b. a * b) v) u"

definition smult :: "real \<Rightarrow> mat \<Rightarrow> mat" where
  "smult c A = map (vsmult c) A"

definition madd :: "mat \<Rightarrow> mat \<Rightarrow> mat" where
  "madd A B = map2 vadd A B"

definition mat_vec :: "mat \<Rightarrow> vec \<Rightarrow> vec" where
  "mat_vec A x = map (\<lambda>r. dot r x) A"

text \<open>\<open>A * trans(B)\<close> for two matrices with rows of equal length.\<close>

definition mat_mul_trans :: "mat \<Rightarrow> mat \<Rightarrow> mat" where
  "mat_mul_trans A B = map (\<lambda>ra. map (\<lambda>rb. dot ra rb) B) A"

section \<open>Configuration, coefficients and data\<close>

text \<open>
  The two programs declare \<open>dg_config\<close> with the same leading fields; the first ends
  with \<open>use_upwinding\<close>, the second with a solver selector that no function reads.
\<close>

record dg_config =
  eta :: real
  degree :: int
  ref_levels :: int
  use_preconditioner :: bool
  shatter :: bool
  use_upwinding :: bool

text \<open>The conversion \<open>size_t degree = cfg.degree\<close> of an \<open>int\<close> to a 64-bit unsigned.\<close>

definition size_t_of_int :: "int \<Rightarrow> nat" where
  "size_t_of_int i = nat (i mod 2 ^ 64)"

text \<open>
  The order \<open>2*degree\<close> that every call of \<open>integrate\<close> requests; \<open>degree\<close> is a
  \<open>size_t\<close>, so the product is formed modulo \<open>2^64\<close>.
\<close>

definition quad_order :: "nat \<Rightarrow> nat" where
  "quad_order deg = (2 * deg) mod 2 ^ 64"

definition params_mu :: "point \<Rightarrow> real" where
  "params_mu pt = 1"

definition params_beta :: "point \<Rightarrow> vec" where
  "params_beta pt = [1, 0]"

definition params_epsilon :: "point \<Rightarrow> real" where
  "params_epsilon pt = 1"

text \<open>\<open>data::rhs\<close> of the diffusion program.\<close>

definition data_rhs :: "point \<Rightarrow> real" where
  "data_rhs pt = (let sx = sin (pi * fst pt); sy = sin (pi * snd pt) in 2 * pi * pi * sx * sy)"

definition dirichlet :: "point \<Rightarrow> real" where
  "dirichlet pt = 0"

definition diffusion_ref_sol :: "point \<Rightarrow> real" where
  "diffusion_ref_sol pt = (let sx = sin (pi * fst pt); sy = sin (pi * snd pt) in sx * sy)"

text \<open>
  \<open>data::adv_rhs\<close>; \<open>data::rhs\<close> of the advection-reaction program has the same body.
\<close>

definition adv_rhs :: "point \<Rightarrow> real" where
  "adv_rhs pt =
     (let u = sin (pi * fst pt);
          du_x = pi * cos (pi * fst pt);
          du_y = 0;
          du = [du_x, du_y]
      in dot (params_beta pt) du + params_mu pt * u)"

definition adv_ref_sol :: "point \<Rightarrow> real" where
  "adv_ref_sol pt = sin (pi * fst pt)"

definition advection_ref_sol :: "point \<Rightarrow> real" where
  "advection_ref_sol pt = sin (pi * fst pt)"

record solver_status =
  mesh_h :: real
  L2_errsq_qp :: real
  L2_errsq_mm :: real

section \<open>Loops that an exception or a failed assertion ends\<close>

fun for_each :: "('x \<Rightarrow> 's \<Rightarrow> (error + unit) \<times> 's) \<Rightarrow> 'x list \<Rightarrow> 's \<Rightarrow> (error + unit) \<times> 's" where
  "for_each body [] s = (Inr (), s)"
| "for_each body (x # xs) s =
     (case body x s of
        (Inl e, s') \<Rightarrow> (Inl e, s')
      | (Inr u, s') \<Rightarrow> for_each body xs s')"

section \<open>Assembly of the advection-reaction solver with upwinding\<close>

text \<open>
  \<open>run_advection_reaction_solver\<close> of the program with the \<open>use_upwinding\<close> switch.
  The connectivity of the mesh is computed before the loop; the record \<open>msh\<close> is the
  mesh after that step. This program takes its assembler from \<open>methods/dg.hpp\<close>, which is
  not among the sources; the assembler above, which the other program defines, stands
  for it. The body of the loop over the cell quadrature:
\<close>

definition ar_volume_qp :: "basis \<Rightarrow> mat \<times> vec \<Rightarrow> quadrature_point \<Rightarrow> mat \<times> vec" where
  "ar_volume_qp tbasis Kr qp =
     (let K = fst Kr; loc_rhs = snd Kr;
          ep = qp_point qp;
          phi = basis_eval tbasis ep;
          dphi = basis_eval_grads tbasis ep;
          K1 = madd K (outer (vsmult (params_mu ep * qp_weight qp) phi) phi);
          K2 = madd K1 (outer (vsmult (qp_weight qp) phi) (mat_vec dphi (params_beta ep)))
      in (K2, vadd loc_rhs (vsmult (qp_weight qp * adv_rhs ep) phi)))"

text \<open>The body of the loop over the face quadrature; the state is \<open>(Att, Atn)\<close>.\<close>

definition ar_face_qp ::
  "dg_config \<Rightarrow> basis \<Rightarrow> basis \<Rightarrow> vec \<Rightarrow> bool \<Rightarrow> mat \<times> mat \<Rightarrow> quadrature_point \<Rightarrow> mat \<times> mat" where
  "ar_face_qp cfg tbasis nbasis n has_neighbour A fqp =
     (let Att = fst A; Atn = snd A;
          ep = qp_point fqp;
          tphi = basis_eval tbasis ep;
          beta_nf = dot (params_beta ep) n;
          fi_coeff = (if use_upwinding cfg then beta_nf - eta cfg * \<bar>beta_nf\<bar> else beta_nf)
      in if has_neighbour
         then
           let Att1 = madd Att (outer (vsmult (- qp_weight fqp * 0.5 * fi_coeff) tphi) tphi);
               nphi = basis_eval nbasis ep
           in (Att1, madd Atn (outer (vsmult (qp_weight fqp * fi_coeff * 0.5) tphi) nphi))
         else
           let beta_minus = 0.5 * (\<bar>beta_nf\<bar> - beta_nf)
           in if beta_nf < 0
              then (madd Att (outer (vsmult (qp_weight fqp * beta_minus) tphi) tphi), Atn)
              else (Att, Atn))"

text \<open>
  One pass of the loop over the faces of a cell. The basis of the handle that
  \<open>neighbour_via\<close> returns is built, and its size is asserted, before the flag is read.
\<close>

definition ar_face ::
  "('c, 'f) mesh \<Rightarrow> dg_config \<Rightarrow> nat \<Rightarrow> 'c \<Rightarrow> basis \<Rightarrow> 'f \<Rightarrow> assembler
     \<Rightarrow> (error + unit) \<times> assembler" where
  "ar_face msh cfg deg tcl tbasis fc assm =
     (let nv = neighbour_via msh tcl fc; ncl = fst nv; has_neighbour = snd nv
      in case make_basis msh ncl deg of
           None \<Rightarrow> (Inl Basis_undefined, assm)
         | Some nbasis \<Rightarrow>
             if bsize tbasis \<noteq> bsize nbasis then (Inl Assertion_failed, assm)
             else
               let n = normal msh tcl fc;
                   f_qps = integrate_face msh fc (quad_order deg);
                   A = foldl (ar_face_qp cfg tbasis nbasis n has_neighbour)
                         (zero_mat (bsize tbasis) (bsize tbasis),
                          zero_mat (bsize tbasis) (bsize tbasis)) f_qps
               in case assemble msh tcl tcl (fst A) assm of
                    (Inl e, s) \<Rightarrow> (Inl e, s)
                  | (Inr b, s) \<Rightarrow>
                      if has_neighbour
                      then (case assemble msh tcl ncl (snd A) s of
                              (Inl e, s') \<Rightarrow> (Inl e, s')
                            | (Inr b', s') \<Rightarrow> (Inr (), s'))
                      else (Inr (), s))"

definition ar_cell ::
  "('c, 'f) mesh \<Rightarrow> dg_config \<Rightarrow> nat \<Rightarrow> 'c \<Rightarrow> assembler \<Rightarrow> (error + unit) \<times> assembler" where
  "ar_cell msh cfg deg tcl assm =
     (case make_basis msh tcl deg of
        None \<Rightarrow> (Inl Basis_undefined, assm)
      | Some tbasis \<Rightarrow>
          let Kr = foldl (ar_volume_qp tbasis)
                     (zero_mat (bsize tbasis) (bsize tbasis), zero_vec (bsize tbasis))
                     (integrate_cell msh tcl (quad_order deg))
          in case for_each (ar_face msh cfg deg tcl tbasis) (faces msh tcl) assm of
               (Inl e, s) \<Rightarrow> (Inl e, s)
             | (Inr u, s) \<Rightarrow>
                 (case assemble_rhs msh tcl (fst Kr) (snd Kr) s of
                    (Inl e, s') \<Rightarrow> (Inl e, s')
                  | (Inr b, s') \<Rightarrow> (Inr (), s')))"

text \<open>The assembly part of the solver, up to \<open>assm.finalize()\<close>.\<close>

definition ar_assembly ::
  "('c, 'f) mesh \<Rightarrow> dg_config \<Rightarrow> bool \<Rightarrow> (error + unit) \<times> assembler" where
  "ar_assembly msh cfg b =
     (let deg = size_t_of_int (degree cfg);
          assm = assembler_new msh deg (use_preconditioner cfg) b
      in case for_each (ar_cell msh cfg deg) (cells msh) assm of
           (Inl e, s) \<Rightarrow> (Inl e, s)
         | (Inr u, s) \<Rightarrow> finalize s)"

section \<open>Assembly of the advection-reaction solver with the centered flux\<close>

text \<open>
  \<open>run_advection_reaction_solver\<close> of the program that also holds the assembler and the
  diffusion solver. Its loop over the cell quadrature is the one above (\<open>data::adv_rhs\<close>
  is the source term); its face loop has no upwinding.
\<close>

definition ar1_face_qp ::
  "basis \<Rightarrow> basis \<Rightarrow> vec \<Rightarrow> bool \<Rightarrow> mat \<times> mat \<Rightarrow> quadrature_point \<Rightarrow> mat \<times> mat" where
  "ar1_face_qp tbasis nbasis n has_neighbour A fqp =
     (let Att = fst A; Atn = snd A;
          ep = qp_point fqp;
          tphi = basis_eval tbasis ep
      in if has_neighbour
         then
           let beta_nf = dot (params_beta ep) n;
               coeff = beta_nf;
               Att1 = madd Att (outer (vsmult (- qp_weight fqp * 0.5 * coeff) tphi) tphi);
               nphi = basis_eval nbasis ep;
               beta_nf' = dot (params_beta ep) n;
               coeff' = beta_nf'
           in (Att1, madd Atn (outer (vsmult (qp_weight fqp * coeff' * 0.5) tphi) nphi))
         else
           let beta_nf = dot (params_beta ep) n;
               beta_minus = 0.5 * (\<bar>beta_nf\<bar> - beta_nf)
           in if beta_nf < 0
              then (madd Att (outer (vsmult (qp_weight fqp * beta_minus) tphi) tphi), Atn)
              else (Att, Atn))"

definition ar1_face ::
  "('c, 'f) mesh \<Rightarrow> nat \<Rightarrow> 'c \<Rightarrow> basis \<Rightarrow> 'f \<Rightarrow> assembler \<Rightarrow> (error + unit) \<times> assembler" where
  "ar1_face msh deg tcl tbasis fc assm =
     (let nv = neighbour_via msh tcl fc; ncl = fst nv
      in case make_basis msh ncl deg of
           None \<Rightarrow> (Inl Basis_undefined, assm)
         | Some nbasis \<Rightarrow>
             if bsize tbasis \<noteq> bsize nbasis then (Inl Assertion_failed, assm)
             else
               let n = normal msh tcl fc;
                   f_qps = integrate_face msh fc (quad_order deg);
                   A = foldl (ar1_face_qp tbasis nbasis n (snd nv))
                         (zero_mat (bsize tbasis) (bsize tbasis),
                          zero_mat (bsize tbasis) (bsize tbasis)) f_qps
               in case assemble msh tcl tcl (fst A) assm of
                    (Inl e, s) \<Rightarrow> (Inl e, s)
                  | (Inr b, s) \<Rightarrow>
                      if snd nv
                      then (case assemble msh tcl ncl (snd A) s of
                              (Inl e, s') \<Rightarrow> (Inl e, s')
                            | (Inr b', s') \<Rightarrow> (Inr (), s'))
                      else (Inr (), s))"

definition ar1_cell ::
  "('c, 'f) mesh \<Rightarrow> nat \<Rightarrow> 'c \<Rightarrow> assembler \<Rightarrow> (error + unit) \<times> assembler" where
  "ar1_cell msh deg tcl assm =
     (case make_basis msh tcl deg of
        None \<Rightarrow> (Inl Basis_undefined, assm)
      | Some tbasis \<Rightarrow>
          let Kr = foldl (ar_volume_qp tbasis)
                     (zero_mat (bsize tbasis) (bsize tbasis), zero_vec (bsize tbasis))
                     (integrate_cell msh tcl (quad_order deg))
          in case for_each (ar1_face msh deg tcl tbasis) (faces msh tcl) assm of
               (Inl e, s) \<Rightarrow> (Inl e, s)
             | (Inr u, s) \<Rightarrow>
                 (case assemble_rhs msh tcl (fst Kr) (snd Kr) s of
                    (Inl e, s') \<Rightarrow> (Inl e, s')
                  | (Inr b, s') \<Rightarrow> (Inr (), s')))"

definition ar1_assembly ::
  "('c, 'f) mesh \<Rightarrow> dg_config \<Rightarrow> bool \<Rightarrow> (error + unit) \<times> assembler" where
  "ar1_assembly msh cfg b =
     (let deg = size_t_of_int (degree cfg);
          assm = assembler_new msh deg (use_preconditioner cfg) b
      in case for_each (ar1_cell msh deg) (cells msh) assm of
           (Inl e, s) \<Rightarrow> (Inl e, s)
         | (Inr u, s) \<Rightarrow> finalize s)"

section \<open>Assembly of the diffusion solver\<close>

text \<open>
  \<open>run_diffusion_solver\<close>. The penalty parameter is \<open>T eta = 3*degree*degree*cfg.eta\<close>:
  the product \<open>3*degree*degree\<close> is formed in \<open>size_t\<close> and then converted to \<open>T\<close>.
\<close>

definition diff_eta :: "dg_config \<Rightarrow> real" where
  "diff_eta cfg =
     (let deg = size_t_of_int (degree cfg)
      in real ((3 * deg * deg) mod 2 ^ 64) * eta cfg)"

text \<open>\<open>auto eta_l = eta / diameter(msh, fc)\<close>, computed once for each face.\<close>

definition diff_eta_l :: "('c, 'f) mesh \<Rightarrow> dg_config \<Rightarrow> 'f \<Rightarrow> real" where
  "diff_eta_l msh cfg fc = diff_eta cfg / face_diameter msh fc"

definition diff_volume_qp :: "basis \<Rightarrow> mat \<times> vec \<Rightarrow> quadrature_point \<Rightarrow> mat \<times> vec" where
  "diff_volume_qp tbasis Kr qp =
     (let K = fst Kr; loc_rhs = snd Kr;
          ep = qp_point qp;
          phi = basis_eval tbasis ep;
          dphi = basis_eval_grads tbasis ep
      in (madd K (mat_mul_trans (smult (qp_weight qp) dphi) dphi),
          vadd loc_rhs (vsmult (qp_weight qp * data_rhs ep) phi)))"

text \<open>
  The body of the loop over the face quadrature; the state is \<open>(Att, Atn, loc_rhs)\<close>, and
  \<open>eta_l\<close> is the penalty coefficient of the face.
\<close>

definition diff_face_qp ::
  "real \<Rightarrow> basis \<Rightarrow> basis \<Rightarrow> vec \<Rightarrow> bool \<Rightarrow> mat \<times> mat \<times> vec \<Rightarrow> quadrature_point
     \<Rightarrow> mat \<times> mat \<times> vec" where
  "diff_face_qp eta_l tbasis nbasis n has_neighbour A fqp =
     (let Att = fst A; Atn = fst (snd A); loc_rhs = snd (snd A);
          ep = qp_point fqp;
          tphi = basis_eval tbasis ep;
          tdphi = basis_eval_grads tbasis ep
      in if has_neighbour
         then
           let Att1 = madd Att (outer (vsmult (qp_weight fqp * eta_l) tphi) tphi);
               Att2 = madd Att1 (outer (vsmult (- qp_weight fqp * 0.5) tphi) (mat_vec tdphi n));
               Att3 = madd Att2 (outer (vsmult (- qp_weight fqp * 0.5) (mat_vec tdphi n)) tphi);
               nphi = basis_eval nbasis ep;
               ndphi = basis_eval_grads nbasis ep;
               Atn1 = madd Atn (outer (vsmult (- qp_weight fqp * eta_l) tphi) nphi);
               Atn2 = madd Atn1 (outer (vsmult (- qp_weight fqp * 0.5) tphi) (mat_vec ndphi n));
               Atn3 = madd Atn2 (outer (vsmult (qp_weight fqp * 0.5) (mat_vec tdphi n)) nphi)
           in (Att3, Atn3, loc_rhs)
         else
           let Att1 = madd Att (outer (vsmult (qp_weight fqp * eta_l) tphi) tphi);
               Att2 = madd Att1 (outer (vsmult (- qp_weight fqp) tphi) (mat_vec tdphi n));
               Att3 = madd Att2 (outer (vsmult (- qp_weight fqp) (mat_vec tdphi n)) tphi);
               loc_rhs1 = vsub loc_rhs (vsmult (qp_weight fqp * dirichlet ep) (mat_vec tdphi n));
               loc_rhs2 = vadd loc_rhs1 (vsmult (qp_weight fqp * eta_l * dirichlet ep) tphi)
           in (Att3, Atn, loc_rhs2))"

text \<open>
  The blocks and the local right-hand side that the loop over the face quadrature
  leaves for one face.
\<close>

definition diff_face_blocks ::
  "('c, 'f) mesh \<Rightarrow> dg_config \<Rightarrow> nat \<Rightarrow> 'c \<Rightarrow> basis \<Rightarrow> basis \<Rightarrow> bool \<Rightarrow> 'f \<Rightarrow> vec
     \<Rightarrow> mat \<times> mat \<times> vec" where
  "diff_face_blocks msh cfg deg tcl tbasis nbasis has_neighbour fc loc_rhs =
     (let n = normal msh tcl fc;
          eta_l = diff_eta_l msh cfg fc;
          f_qps = integrate_face msh fc (quad_order deg)
      in foldl (diff_face_qp eta_l tbasis nbasis n has_neighbour)
           (zero_mat (bsize tbasis) (bsize tbasis),
            zero_mat (bsize tbasis) (bsize tbasis), loc_rhs) f_qps)"

text \<open>One pass of the loop over the faces; the state is the local right-hand side and the assembler.\<close>

definition diff_face ::
  "('c, 'f) mesh \<Rightarrow> dg_config \<Rightarrow> nat \<Rightarrow> 'c \<Rightarrow> basis \<Rightarrow> 'f \<Rightarrow> vec \<times> assembler
     \<Rightarrow> (error + unit) \<times> vec \<times> assembler" where
  "diff_face msh cfg deg tcl tbasis fc st =
     (let loc_rhs = fst st; assm = snd st;
          nv = neighbour_via msh tcl fc; ncl = fst nv
      in case make_basis msh ncl deg of
           None \<Rightarrow> (Inl Basis_undefined, st)
         | Some nbasis \<Rightarrow>
             if bsize tbasis \<noteq> bsize nbasis then (Inl Assertion_failed, st)
             else
               let A = diff_face_blocks msh cfg deg tcl tbasis nbasis (snd nv) fc loc_rhs;
                   loc_rhs' = snd (snd A)
               in case assemble msh tcl tcl (fst A) assm of
                    (Inl e, s) \<Rightarrow> (Inl e, loc_rhs', s)
                  | (Inr b, s) \<Rightarrow>
                      if snd nv
                      then (case assemble msh tcl ncl (fst (snd A)) s of
                              (Inl e, s') \<Rightarrow> (Inl e, loc_rhs', s')
                            | (Inr b', s') \<Rightarrow> (Inr (), loc_rhs', s'))
                      else (Inr (), loc_rhs', s))"

definition diff_cell ::
  "('c, 'f) mesh \<Rightarrow> dg_config \<Rightarrow> nat \<Rightarrow> 'c \<Rightarrow> assembler \<Rightarrow> (error + unit) \<times> assembler" where
  "diff_cell msh cfg deg tcl assm =
     (case make_basis msh tcl deg of
        None \<Rightarrow> (Inl Basis_undefined, assm)
      | Some tbasis \<Rightarrow>
          let Kr = foldl (diff_volume_qp tbasis)
                     (zero_mat (bsize tbasis) (bsize tbasis), zero_vec (bsize tbasis))
                     (integrate_cell msh tcl (quad_order deg))
          in case for_each (diff_face msh cfg deg tcl tbasis) (faces msh tcl) (snd Kr, assm) of
               (Inl e, st) \<Rightarrow> (Inl e, snd st)
             | (Inr u, st) \<Rightarrow>
                 (case assemble_rhs msh tcl (fst Kr) (fst st) (snd st) of
                    (Inl e, s') \<Rightarrow> (Inl e, s')
                  | (Inr b, s') \<Rightarrow> (Inr (), s')))"

definition diff_assembly ::
  "('c, 'f) mesh \<Rightarrow> dg_config \<Rightarrow> bool \<Rightarrow> (error + unit) \<times> assembler" where
  "diff_assembly msh cfg b =
     (let deg = size_t_of_int (degree cfg);
          assm = assembler_new msh deg (use_preconditioner cfg) b
      in case for_each (diff_cell msh cfg deg) (cells msh) assm of
           (Inl e, s) \<Rightarrow> (Inl e, s)
         | (Inr u, s) \<Rightarrow> finalize s)"

section \<open>The error pass\<close>

text \<open>
  The loop over the cells after the solve, the same in the three solvers up to the
  reference solution \<open>ref_sol\<close>. \<open>sol\<close> is the vector the iterative solver returned and
  \<open>solve_LU\<close> is \<open>blaze::solve_LU\<close>, both parameters. The program with upwinding also
  writes sample values of the discrete solution to a text file inside this loop; they do
  not enter the status. The body of the loop over the cell quadrature has the state
  \<open>(M, a, L2_errsq_qp)\<close>.
\<close>

definition err_qp ::
  "(point \<Rightarrow> real) \<Rightarrow> basis \<Rightarrow> vec \<Rightarrow> mat \<times> vec \<times> real \<Rightarrow> quadrature_point
     \<Rightarrow> mat \<times> vec \<times> real" where
  "err_qp ref_sol b loc_sol S qp =
     (let M = fst S; a = fst (snd S); errsq_qp = snd (snd S);
          ep = qp_point qp;
          phi = basis_eval b ep;
          sv = ref_sol ep;
          M' = madd M (outer (vsmult (qp_weight qp) phi) phi);
          a' = vadd a (vsmult (qp_weight qp * sv) phi);
          cv = dot loc_sol phi
      in (M', a', errsq_qp + qp_weight qp * (sv - cv) * (sv - cv)))"

definition err_cell ::
  "(point \<Rightarrow> real) \<Rightarrow> (mat \<Rightarrow> vec \<Rightarrow> vec) \<Rightarrow> ('c, 'f) mesh \<Rightarrow> nat \<Rightarrow> vec \<Rightarrow> 'c
     \<Rightarrow> solver_status \<Rightarrow> (error + unit) \<times> solver_status" where
  "err_cell ref_sol solve_LU msh deg sol cl status =
     (case make_basis msh cl deg of
        None \<Rightarrow> (Inl Basis_undefined, status)
      | Some b \<Rightarrow>
          let bsz = bsize b;
              ofs = offset msh cl;
              loc_sol = map (\<lambda>i. sol ! (bsz * ofs + i)) [0..<bsz];
              qps = integrate_cell msh cl (quad_order deg);
              S = foldl (err_qp ref_sol b loc_sol)
                    (zero_mat bsz bsz, zero_vec bsz, L2_errsq_qp status) qps;
              M = fst S; a = fst (snd S);
              proj = solve_LU M a
          in (Inr (),
              status\<lparr>L2_errsq_qp := snd (snd S),
                     L2_errsq_mm := L2_errsq_mm status
                        + dot (vsub proj loc_sol) (mat_vec M (vsub proj loc_sol))\<rparr>))"

definition error_pass ::
  "(point \<Rightarrow> real) \<Rightarrow> (mat \<Rightarrow> vec \<Rightarrow> vec) \<Rightarrow> ('c, 'f) mesh \<Rightarrow> nat \<Rightarrow> vec
     \<Rightarrow> solver_status \<Rightarrow> (error + unit) \<times> solver_status" where
  "error_pass ref_sol solve_LU msh deg sol status =
     for_each (err_cell ref_sol solve_LU msh deg sol) (cells msh)
       (status\<lparr>L2_errsq_qp := 0, L2_errsq_mm := 0\<rparr>)"

section \<open>Small meshes and assemblers for concrete runs\<close>

definition basis1 :: basis where
  "basis1 = \<lparr>bsize = 1, basis_eval = (\<lambda>p. [1]), basis_eval_grads = (\<lambda>p. [[0, 0]])\<rparr>"

text \<open>One cell with one boundary face, and a basis of one constant function.\<close>

definition mesh1 :: "(nat, nat) mesh" where
  "mesh1 = \<lparr>cells = [0], offset = (\<lambda>c. c), faces = (\<lambda>c. [0]),
     neighbour_via = (\<lambda>c f. (0, False)), normal = (\<lambda>c f. [1, 0]),
     face_diameter = (\<lambda>f. 1),
     integrate_cell = (\<lambda>c k. [\<lparr>qp_point = (0, 0), qp_weight = 1\<rparr>]),
     integrate_face = (\<lambda>f k. [\<lparr>qp_point = (0, 0), qp_weight = 1\<rparr>]),
     make_basis = (\<lambda>c k. Some basis1),
     scalar_basis_size = (\<lambda>k d. 1)\<rparr>"

definition basis2 :: basis where
  "basis2 = \<lparr>bsize = 2, basis_eval = (\<lambda>p. [1, fst p]),
              basis_eval_grads = (\<lambda>p. [[0, 0], [1, 0]])\<rparr>"

text \<open>Two cells that share face \<open>0\<close>; the global system has two unknowns for each cell.\<close>

definition mesh2 :: "(nat, nat) mesh" where
  "mesh2 = \<lparr>cells = [0, 1], offset = (\<lambda>c. c), faces = (\<lambda>c. [0, Suc c]),
     neighbour_via = (\<lambda>c f. if f = 0 then (1 - c, True) else (c, False)),
     normal = (\<lambda>c f. if f = 0 then (if c = 0 then [1, 0] else [-1, 0])
                        else (if c = 0 then [-1, 0] else [1, 0])),
     face_diameter = (\<lambda>f. 1),
     integrate_cell = (\<lambda>c k. [\<lparr>qp_point = (0, 0), qp_weight = 1\<rparr>]),
     integrate_face = (\<lambda>f k. [\<lparr>qp_point = (0, 0), qp_weight = 1\<rparr>]),
     make_basis = (\<lambda>c k. Some basis2),
     scalar_basis_size = (\<lambda>k d. 2)\<rparr>"

text \<open>
  An assembler built on \<open>mesh1\<close> with the preconditioning flag \<open>false\<close>, the same after
  one block is assembled, after \<open>finalize\<close>, and after the block is assembled again.
\<close>

definition asm0 :: assembler where
  "asm0 = assembler_new mesh1 0 False False"

definition asm1 :: assembler where
  "asm1 = snd (assemble mesh1 0 0 [[1]] asm0)"

definition asm2 :: assembler where
  "asm2 = snd (finalize asm1)"

definition asm3 :: assembler where
  "asm3 = snd (assemble mesh1 0 0 [[1]] asm2)"

section \<open>Notions used to state the properties\<close>

text \<open>
  An assembler is initialized when the guard of \<open>assemble\<close> and \<open>finalize\<close> lets it pass.
\<close>

definition initialized :: "assembler \<Rightarrow> bool" where
  "initialized a = (sys_size a \<noteq> 0 \<and> basis_size a \<noteq> 0)"

text \<open>
  The basis of the handle that \<open>neighbour_via\<close> returns for a face can be built and has
  the size of the basis of the cell.
\<close>

definition neighbour_basis_ok :: "('c, 'f) mesh \<Rightarrow> nat \<Rightarrow> 'c \<Rightarrow> basis \<Rightarrow> 'f \<Rightarrow> bool" where
  "neighbour_basis_ok msh deg tcl tbasis fc =
     (case make_basis msh (fst (neighbour_via msh tcl fc)) deg of
        None \<Rightarrow> False
      | Some nbasis \<Rightarrow> bsize tbasis = bsize nbasis)"

text \<open>
  The triplets that assembling a zero block of size \<open>bs\<close> on the diagonal position
  \<open>ofs\<close> emits: one entry for each index pair, each with the value zero.
\<close>

definition zero_block_triplets :: "nat \<Rightarrow> nat \<Rightarrow> triplet list" where
  "zero_block_triplets bs ofs =
     concat (map (\<lambda>i. map (\<lambda>j. \<lparr>row = ofs + i, col = ofs + j, val = 0\<rparr>) [0..<bs]) [0..<bs])"

text \<open>
  A face of a cell is a boundary face with pure outflow: the neighbour lookup reports no
  neighbour, the basis of the returned handle can be built with the size of the basis of
  the cell, and \<open>beta . n \<ge> 0\<close> at every quadrature point of the face.
\<close>

definition outflow_boundary_face :: "('c, 'f) mesh \<Rightarrow> nat \<Rightarrow> 'c \<Rightarrow> basis \<Rightarrow> 'f \<Rightarrow> bool" where
  "outflow_boundary_face msh deg tcl tbasis fc =
     (\<not> snd (neighbour_via msh tcl fc)
      \<and> neighbour_basis_ok msh deg tcl tbasis fc
      \<and> list_all (\<lambda>q. 0 \<le> dot (params_beta (qp_point q)) (normal msh tcl fc))
           (integrate_face msh fc (quad_order deg)))"

text \<open>
  The quantities of the mass-matrix error norm in the words of the specification: the
  local mass matrix \<open>M = \<Sum> weight * phi * trans(phi)\<close>, the load vector
  \<open>a = \<Sum> weight * ref(point) * phi\<close>, the coefficient block of a cell in the global
  solution, and the quadratic form \<open>trans(d) * M * d\<close>.
\<close>

definition mass_matrix :: "basis \<Rightarrow> quadrature_point list \<Rightarrow> mat" where
  "mass_matrix b qps =
     foldl madd (zero_mat (bsize b) (bsize b))
       (map (\<lambda>qp. smult (qp_weight qp)
                    (outer (basis_eval b (qp_point qp)) (basis_eval b (qp_point qp)))) qps)"

definition load_vector :: "(point \<Rightarrow> real) \<Rightarrow> basis \<Rightarrow> quadrature_point list \<Rightarrow> vec" where
  "load_vector ref_sol b qps =
     foldl vadd (zero_vec (bsize b))
       (map (\<lambda>qp. vsmult (qp_weight qp * ref_sol (qp_point qp)) (basis_eval b (qp_point qp))) qps)"

definition coefficient_block :: "('c, 'f) mesh \<Rightarrow> basis \<Rightarrow> vec \<Rightarrow> 'c \<Rightarrow> vec" where
  "coefficient_block msh b sol cl = map (\<lambda>i. sol ! (bsize b * offset msh cl + i)) [0..<bsize b]"

definition mass_form :: "mat \<Rightarrow> vec \<Rightarrow> real" where
  "mass_form M d = dot d (mat_vec M d)"

text \<open>
  The same for one cell of a mesh, with the gain of the two error accumulators on that
  cell; \<open>lu_solved\<close> says that the vector \<open>solve_LU\<close> returns for the system of the cell
  solves it.
\<close>

definition cell_mass :: "('c, 'f) mesh \<Rightarrow> nat \<Rightarrow> 'c \<Rightarrow> mat" where
  "cell_mass msh deg cl =
     (case make_basis msh cl deg of
        None \<Rightarrow> []
      | Some b \<Rightarrow> mass_matrix b (integrate_cell msh cl (quad_order deg)))"

definition cell_load :: "(point \<Rightarrow> real) \<Rightarrow> ('c, 'f) mesh \<Rightarrow> nat \<Rightarrow> 'c \<Rightarrow> vec" where
  "cell_load ref_sol msh deg cl =
     (case make_basis msh cl deg of
        None \<Rightarrow> []
      | Some b \<Rightarrow> load_vector ref_sol b (integrate_cell msh cl (quad_order deg)))"

definition cell_sol :: "('c, 'f) mesh \<Rightarrow> nat \<Rightarrow> vec \<Rightarrow> 'c \<Rightarrow> vec" where
  "cell_sol msh deg sol cl =
     (case make_basis msh cl deg of
        None \<Rightarrow> []
      | Some b \<Rightarrow> coefficient_block msh b sol cl)"

definition cell_mm_error ::
  "(point \<Rightarrow> real) \<Rightarrow> (mat \<Rightarrow> vec \<Rightarrow> vec) \<Rightarrow> ('c, 'f) mesh \<Rightarrow> nat \<Rightarrow> vec \<Rightarrow> 'c \<Rightarrow> real" where
  "cell_mm_error ref_sol solve_LU msh deg sol cl =
     mass_form (cell_mass msh deg cl)
       (vsub (solve_LU (cell_mass msh deg cl) (cell_load ref_sol msh deg cl))
             (cell_sol msh deg sol cl))"

definition cell_qp_error :: "(point \<Rightarrow> real) \<Rightarrow> ('c, 'f) mesh \<Rightarrow> nat \<Rightarrow> vec \<Rightarrow> 'c \<Rightarrow> real" where
  "cell_qp_error ref_sol msh deg sol cl =
     (case make_basis msh cl deg of
        None \<Rightarrow> 0
      | Some b \<Rightarrow>
          (\<Sum>qp\<leftarrow>integrate_cell msh cl (quad_order deg).
             qp_weight qp * (ref_sol (qp_point qp) - dot (cell_sol msh deg sol cl) (basis_eval b (qp_point qp)))\<^sup>2))"

definition lu_solved ::
  "(point \<Rightarrow> real) \<Rightarrow> (mat \<Rightarrow> vec \<Rightarrow> vec) \<Rightarrow> ('c, 'f) mesh \<Rightarrow> nat \<Rightarrow> 'c \<Rightarrow> bool" where
  "lu_solved ref_sol solve_LU msh deg cl =
     (mat_vec (cell_mass msh deg cl) (solve_LU (cell_mass msh deg cl) (cell_load ref_sol msh deg cl))
        = cell_load ref_sol msh deg cl)"

text \<open>
  Further data for concrete runs: the default configuration, a quadrature point, a
  mesh whose missing neighbours are reported with a handle that has no basis, a solver for
  systems of one equation, and an initial status record.
\<close>

definition cfg1 :: dg_config where
  "cfg1 = \<lparr>eta = 1, degree = 1, ref_levels = 4, use_preconditioner = False,
            shatter = False, use_upwinding = False\<rparr>"

definition qp0 :: quadrature_point where
  "qp0 = \<lparr>qp_point = (0, 0), qp_weight = 1\<rparr>"

definition mesh1b :: "(nat, nat) mesh" where
  "mesh1b = mesh1\<lparr>neighbour_via := (\<lambda>c f. (2, False)),
                  make_basis := (\<lambda>c k. if c = 0 then Some basis1 else None)\<rparr>"

definition solve1 :: "mat \<Rightarrow> vec \<Rightarrow> vec" where
  "solve1 M a = [a ! 0 / M ! 0 ! 0]"

definition status0 :: solver_status where
  "status0 = \<lparr>mesh_h = 1, L2_errsq_qp = 0, L2_errsq_mm = 0\<rparr>"

text \<open>
  Two cells \<open>0\<close> and \<open>2\<close> with the offsets \<open>0\<close> and \<open>1\<close> that share face \<open>0\<close>; face \<open>3\<close> is
  the boundary face of cell \<open>0\<close> (inflow) and face \<open>5\<close> that of cell \<open>2\<close> (outflow). Every face
  has the diameter \<open>1/2\<close> and one quadrature point \<open>(2, 0)\<close> of weight \<open>1/2\<close>; the basis is
  \<open>basis2\<close>. \<open>asm_m3\<close> is the assembler the solvers build on this mesh for the default
  configuration.
\<close>

definition mesh3 :: "(nat, nat) mesh" where
  "mesh3 = \<lparr>cells = [0, 2], offset = (\<lambda>c. c div 2), faces = (\<lambda>c. [0, c + 3]),
     neighbour_via = (\<lambda>c f. if f = 0 then (2 - c, True) else (c, False)),
     normal = (\<lambda>c f. if f = 0 then (if c = 0 then [1, 0] else [-1, 0])
                        else (if c = 0 then [-1, 0] else [1, 0])),
     face_diameter = (\<lambda>f. 1 / 2),
     integrate_cell = (\<lambda>c k. [\<lparr>qp_point = (2, 0), qp_weight = 1 / 2\<rparr>]),
     integrate_face = (\<lambda>f k. [\<lparr>qp_point = (2, 0), qp_weight = 1 / 2\<rparr>]),
     make_basis = (\<lambda>c k. Some basis2),
     scalar_basis_size = (\<lambda>k d. 2)\<rparr>"

definition asm_m3 :: assembler where
  "asm_m3 = assembler_new mesh3 (size_t_of_int (degree cfg1)) (use_preconditioner cfg1) False"

section \<open>Properties of the assembler\<close>

lemma entry_fields [simp]:
  "triplets (assemble_entry ci cj v a) = triplets a @ [\<lparr>row = ci, col = cj, val = v\<rparr>]"
  "pc_triplets (assemble_entry ci cj v a) = pc_triplets a"
  "sys_size (assemble_entry ci cj v a) = sys_size a"
  "basis_size (assemble_entry ci cj v a) = basis_size a"
  "build_pc (assemble_entry ci cj v a) = build_pc a"
  "lhs (assemble_entry ci cj v a) = lhs a"
  "rhs (assemble_entry ci cj v a) = rhs a"
  "pc (assemble_entry ci cj v a) = pc a"
  "length (pc_temp (assemble_entry ci cj v a)) = length (pc_temp a)"
  by (simp_all add: assemble_entry_def Let_def)

lemma entry_no_pc: "\<not> build_pc a \<Longrightarrow> pc_temp (assemble_entry ci cj v a) = pc_temp a"
  by (simp add: assemble_entry_def Let_def)

lemma row_loop_fields:
  "triplets (foldl (\<lambda>s j. assemble_entry ci (g j) (h j) s) a js)
     = triplets a @ map (\<lambda>j. \<lparr>row = ci, col = g j, val = h j\<rparr>) js
   \<and> pc_triplets (foldl (\<lambda>s j. assemble_entry ci (g j) (h j) s) a js) = pc_triplets a
   \<and> sys_size (foldl (\<lambda>s j. assemble_entry ci (g j) (h j) s) a js) = sys_size a
   \<and> basis_size (foldl (\<lambda>s j. assemble_entry ci (g j) (h j) s) a js) = basis_size a
   \<and> build_pc (foldl (\<lambda>s j. assemble_entry ci (g j) (h j) s) a js) = build_pc a
   \<and> lhs (foldl (\<lambda>s j. assemble_entry ci (g j) (h j) s) a js) = lhs a
   \<and> rhs (foldl (\<lambda>s j. assemble_entry ci (g j) (h j) s) a js) = rhs a
   \<and> pc (foldl (\<lambda>s j. assemble_entry ci (g j) (h j) s) a js) = pc a
   \<and> length (pc_temp (foldl (\<lambda>s j. assemble_entry ci (g j) (h j) s) a js)) = length (pc_temp a)"
  by (induction js arbitrary: a) simp_all

lemma assemble_row_fields [simp]:
  "triplets (assemble_row oa ob block i a) = triplets a @ row_triplets (basis_size a) oa ob block i"
  "pc_triplets (assemble_row oa ob block i a) = pc_triplets a"
  "sys_size (assemble_row oa ob block i a) = sys_size a"
  "basis_size (assemble_row oa ob block i a) = basis_size a"
  "build_pc (assemble_row oa ob block i a) = build_pc a"
  "lhs (assemble_row oa ob block i a) = lhs a"
  "rhs (assemble_row oa ob block i a) = rhs a"
  "pc (assemble_row oa ob block i a) = pc a"
  "length (pc_temp (assemble_row oa ob block i a)) = length (pc_temp a)"
  by (simp_all add: assemble_row_def Let_def row_loop_fields row_triplets_def)

lemma rows_loop_fields:
  "triplets (foldl (\<lambda>s i. assemble_row oa ob block i s) a is)
     = triplets a @ concat (map (row_triplets (basis_size a) oa ob block) is)
   \<and> pc_triplets (foldl (\<lambda>s i. assemble_row oa ob block i s) a is) = pc_triplets a
   \<and> sys_size (foldl (\<lambda>s i. assemble_row oa ob block i s) a is) = sys_size a
   \<and> basis_size (foldl (\<lambda>s i. assemble_row oa ob block i s) a is) = basis_size a
   \<and> build_pc (foldl (\<lambda>s i. assemble_row oa ob block i s) a is) = build_pc a
   \<and> lhs (foldl (\<lambda>s i. assemble_row oa ob block i s) a is) = lhs a
   \<and> rhs (foldl (\<lambda>s i. assemble_row oa ob block i s) a is) = rhs a
   \<and> pc (foldl (\<lambda>s i. assemble_row oa ob block i s) a is) = pc a
   \<and> length (pc_temp (foldl (\<lambda>s i. assemble_row oa ob block i s) a is)) = length (pc_temp a)"
  by (induction "is" arbitrary: a) simp_all

lemma assemble_rhs_row_fields [simp]:
  "triplets (assemble_rhs_row o1 block v i a) = triplets a @ row_triplets (basis_size a) o1 o1 block i"
  "pc_triplets (assemble_rhs_row o1 block v i a) = pc_triplets a"
  "sys_size (assemble_rhs_row o1 block v i a) = sys_size a"
  "basis_size (assemble_rhs_row o1 block v i a) = basis_size a"
  "build_pc (assemble_rhs_row o1 block v i a) = build_pc a"
  "lhs (assemble_rhs_row o1 block v i a) = lhs a"
  "pc (assemble_rhs_row o1 block v i a) = pc a"
  "length (pc_temp (assemble_rhs_row o1 block v i a)) = length (pc_temp a)"
  by (simp_all add: assemble_rhs_row_def Let_def)

lemma rhs_rows_loop_fields:
  "triplets (foldl (\<lambda>s i. assemble_rhs_row o1 block v i s) a is)
     = triplets a @ concat (map (row_triplets (basis_size a) o1 o1 block) is)
   \<and> pc_triplets (foldl (\<lambda>s i. assemble_rhs_row o1 block v i s) a is) = pc_triplets a
   \<and> sys_size (foldl (\<lambda>s i. assemble_rhs_row o1 block v i s) a is) = sys_size a
   \<and> basis_size (foldl (\<lambda>s i. assemble_rhs_row o1 block v i s) a is) = basis_size a
   \<and> build_pc (foldl (\<lambda>s i. assemble_rhs_row o1 block v i s) a is) = build_pc a
   \<and> lhs (foldl (\<lambda>s i. assemble_rhs_row o1 block v i s) a is) = lhs a
   \<and> pc (foldl (\<lambda>s i. assemble_rhs_row o1 block v i s) a is) = pc a
   \<and> length (pc_temp (foldl (\<lambda>s i. assemble_rhs_row o1 block v i s) a is)) = length (pc_temp a)"
  by (induction "is" arbitrary: a) simp_all

lemma assemble_ok:
  assumes "sys_size a \<noteq> 0" "basis_size a \<noteq> 0"
  shows "fst (assemble msh cl_a cl_b block a) = Inr True"
    and "triplets (snd (assemble msh cl_a cl_b block a)) = triplets a @
           block_triplets (basis_size a) (offset msh cl_a * basis_size a)
             (offset msh cl_b * basis_size a) block"
    and "pc_triplets (snd (assemble msh cl_a cl_b block a)) = pc_triplets a"
    and "sys_size (snd (assemble msh cl_a cl_b block a)) = sys_size a"
    and "basis_size (snd (assemble msh cl_a cl_b block a)) = basis_size a"
    and "build_pc (snd (assemble msh cl_a cl_b block a)) = build_pc a"
    and "lhs (snd (assemble msh cl_a cl_b block a)) = lhs a"
    and "rhs (snd (assemble msh cl_a cl_b block a)) = rhs a"
    and "pc (snd (assemble msh cl_a cl_b block a)) = pc a"
    and "length (pc_temp (snd (assemble msh cl_a cl_b block a))) = length (pc_temp a)"
  using assms by (simp_all add: assemble_def Let_def rows_loop_fields block_triplets_def)

lemma assemble_rhs_ok:
  assumes "sys_size a \<noteq> 0" "basis_size a \<noteq> 0"
  shows "fst (assemble_rhs msh cl block v a) = Inr True"
    and "triplets (snd (assemble_rhs msh cl block v a)) = triplets a @
           block_triplets (basis_size a) (offset msh cl * basis_size a)
             (offset msh cl * basis_size a) block"
    and "pc_triplets (snd (assemble_rhs msh cl block v a)) = pc_triplets a"
    and "sys_size (snd (assemble_rhs msh cl block v a)) = sys_size a"
    and "basis_size (snd (assemble_rhs msh cl block v a)) = basis_size a"
    and "build_pc (snd (assemble_rhs msh cl block v a)) = build_pc a"
    and "lhs (snd (assemble_rhs msh cl block v a)) = lhs a"
    and "pc (snd (assemble_rhs msh cl block v a)) = pc a"
    and "length (pc_temp (snd (assemble_rhs msh cl block v a))) = length (pc_temp a)"
  using assms by (simp_all add: assemble_rhs_def Let_def rhs_rows_loop_fields block_triplets_def)

lemma foldl_add_entry_lookup:
  "(case foldl add_entry m ts (r, c) of None \<Rightarrow> 0 | Some v \<Rightarrow> v)
     = (case m (r, c) of None \<Rightarrow> 0 | Some v \<Rightarrow> v) + coord_sum ts r c"
proof (induction ts arbitrary: m)
  case Nil
  show ?case by (simp add: coord_sum_def)
next
  case (Cons t ts)
  have step: "(case add_entry m t (r, c) of None \<Rightarrow> 0 | Some v \<Rightarrow> v)
      = (case m (r, c) of None \<Rightarrow> 0 | Some v \<Rightarrow> v) + (if row t = r \<and> col t = c then val t else 0)"
    by (auto simp: add_entry_def split: option.splits)
  have "coord_sum (t # ts) r c = (if row t = r \<and> col t = c then val t else 0) + coord_sum ts r c"
    by (simp add: coord_sum_def)
  with Cons.IH [of "add_entry m t"] step show ?case by simp
qed

lemma entry_at_init: "entry_at (init_from_triplets M ts) r c = coord_sum ts r c"
  using foldl_add_entry_lookup [of Map.empty ts r c]
  by (simp add: entry_at_def init_from_triplets_def)

lemma coord_sum_append: "coord_sum (xs @ ys) r c = coord_sum xs r c + coord_sum ys r c"
  by (simp add: coord_sum_def)

lemma pc_loop_fields:
  "triplets (snd (finalize_pc_loop is a)) = triplets a
   \<and> sys_size (snd (finalize_pc_loop is a)) = sys_size a
   \<and> basis_size (snd (finalize_pc_loop is a)) = basis_size a
   \<and> build_pc (snd (finalize_pc_loop is a)) = build_pc a
   \<and> lhs (snd (finalize_pc_loop is a)) = lhs a
   \<and> rhs (snd (finalize_pc_loop is a)) = rhs a
   \<and> pc (snd (finalize_pc_loop is a)) = pc a
   \<and> pc_temp (snd (finalize_pc_loop is a)) = pc_temp a"
  by (induction "is" arbitrary: a) simp_all

lemma pc_loop_ok:
  "\<forall>i\<in>set is. \<bar>pc_temp a ! i\<bar> > 1 / 100 \<Longrightarrow>
   fst (finalize_pc_loop is a) = Inr () \<and>
   pc_triplets (snd (finalize_pc_loop is a))
     = pc_triplets a @ map (\<lambda>i. \<lparr>row = i, col = i, val = 1 / pc_temp a ! i\<rparr>) is"
  by (induction "is" arbitrary: a) simp_all

lemma pc_loop_fail:
  "\<exists>i\<in>set is. \<not> \<bar>pc_temp a ! i\<bar> > 1 / 100 \<Longrightarrow>
   fst (finalize_pc_loop is a) = Inl Assertion_failed"
  by (induction "is" arbitrary: a) auto

lemma pc_loop_result:
  "fst (finalize_pc_loop is a) = Inr () \<or> fst (finalize_pc_loop is a) = Inl Assertion_failed"
  by (induction "is" arbitrary: a) simp_all

lemma finalize_fields:
  assumes "sys_size a \<noteq> 0" "basis_size a \<noteq> 0"
  shows "fst (finalize a) \<noteq> Inl Invalid_argument"
    and "triplets (snd (finalize a)) = []"
    and "sys_size (snd (finalize a)) = sys_size a"
    and "basis_size (snd (finalize a)) = basis_size a"
    and "build_pc (snd (finalize a)) = build_pc a"
    and "lhs (snd (finalize a)) = init_from_triplets (lhs a) (triplets a)"
    and "rhs (snd (finalize a)) = rhs a"
    and "pc_temp (snd (finalize a)) = pc_temp a"
proof -
  let ?a2 = "a\<lparr>lhs := init_from_triplets (lhs a) (triplets a), triplets := []\<rparr>"
  obtain r a3 where L: "finalize_pc_loop [0..<length (pc_temp a)] ?a2 = (r, a3)"
    by (cases "finalize_pc_loop [0..<length (pc_temp a)] ?a2") auto
  have F: "triplets a3 = [] \<and> sys_size a3 = sys_size a \<and> basis_size a3 = basis_size a
      \<and> build_pc a3 = build_pc a \<and> lhs a3 = init_from_triplets (lhs a) (triplets a)
      \<and> rhs a3 = rhs a \<and> pc_temp a3 = pc_temp a"
    using pc_loop_fields [of "[0..<length (pc_temp a)]" ?a2] L by simp
  show "fst (finalize a) \<noteq> Inl Invalid_argument"
    and "triplets (snd (finalize a)) = []"
    and "sys_size (snd (finalize a)) = sys_size a"
    and "basis_size (snd (finalize a)) = basis_size a"
    and "build_pc (snd (finalize a)) = build_pc a"
    and "lhs (snd (finalize a)) = init_from_triplets (lhs a) (triplets a)"
    and "rhs (snd (finalize a)) = rhs a"
    and "pc_temp (snd (finalize a)) = pc_temp a"
    using assms L F pc_loop_result [of "[0..<length (pc_temp a)]" ?a2]
    by (auto simp: finalize_def Let_def split: sum.splits)
qed

lemma asm0_eval: "asm0 = \<lparr>triplets = [], pc_triplets = [], sys_size = 1, basis_size = 1, build_pc = True,
      lhs = \<lparr>nrows = 1, ncols = 1, entries = Map.empty\<rparr>, rhs = [0], pc = \<lparr>nrows = 1, ncols = 1, entries = Map.empty\<rparr>, pc_temp = [0]\<rparr>"
  by (simp add: asm0_def assembler_new_def initialize_def assembler_default_def mesh1_def Let_def
      resize_sparse_def resize_vec_def sparse_empty_def)

lemma asm1_eval: "asm1 = \<lparr>triplets = [\<lparr>row = 0, col = 0, val = 1\<rparr>], pc_triplets = [], sys_size = 1, basis_size = 1, build_pc = True,
      lhs = \<lparr>nrows = 1, ncols = 1, entries = Map.empty\<rparr>, rhs = [0], pc = \<lparr>nrows = 1, ncols = 1, entries = Map.empty\<rparr>, pc_temp = [1]\<rparr>"
  by (simp add: asm1_def asm0_eval assemble_def assemble_row_def assemble_entry_def Let_def elem_def mesh1_def)

lemma fin1: "fst (finalize asm1) = Inr ()"
  by (simp add: asm1_eval finalize_def Let_def)

lemma asm2_fields: "sys_size asm2 = 1" "basis_size asm2 = 1" "triplets asm2 = []" "pc_temp asm2 = [1]"
  "build_pc asm2"
  by (simp_all add: asm2_def asm1_eval finalize_fields)

lemma mesh2_new: "assembler_new mesh2 k bpc b = \<lparr>triplets = [], pc_triplets = [], sys_size = 4, basis_size = 2, build_pc = True,
      lhs = \<lparr>nrows = 4, ncols = 4, entries = Map.empty\<rparr>, rhs = [0, 0, 0, 0], pc = \<lparr>nrows = 4, ncols = 4, entries = Map.empty\<rparr>, pc_temp = [0, 0, 0, 0]\<rparr>"
  by (simp add: assembler_new_def initialize_def assembler_default_def mesh2_def Let_def
      resize_sparse_def resize_vec_def sparse_empty_def numeral_eq_Suc)

lemma upt2: "[0..<2] = [0, Suc 0]" by (simp add: numeral_eq_Suc)

lemma assemble_call_ok:
  assumes "sys_size a \<noteq> 0" "basis_size a \<noteq> 0"
  shows "fst (assemble_call msh cl a) = Inr True"
    and "triplets (snd (assemble_call msh cl a)) = triplets a @ call_triplets msh (basis_size a) cl"
    and "sys_size (snd (assemble_call msh cl a)) = sys_size a"
    and "basis_size (snd (assemble_call msh cl a)) = basis_size a"
    and "build_pc (snd (assemble_call msh cl a)) = build_pc a"
    and "pc_triplets (snd (assemble_call msh cl a)) = pc_triplets a"
    and "lhs (snd (assemble_call msh cl a)) = lhs a"
    and "pc (snd (assemble_call msh cl a)) = pc a"
  using assms by (cases cl; simp add: assemble_ok assemble_rhs_ok)+

lemma assemble_all_ok:
  assumes "sys_size a \<noteq> 0" "basis_size a \<noteq> 0"
  shows "fst (assemble_all msh calls a) = Inr True
       \<and> triplets (snd (assemble_all msh calls a))
           = triplets a @ concat (map (call_triplets msh (basis_size a)) calls)
       \<and> sys_size (snd (assemble_all msh calls a)) = sys_size a
       \<and> basis_size (snd (assemble_all msh calls a)) = basis_size a
       \<and> build_pc (snd (assemble_all msh calls a)) = build_pc a
       \<and> pc_triplets (snd (assemble_all msh calls a)) = pc_triplets a"
  using assms
proof (induction calls arbitrary: a)
  case Nil
  show ?case by simp
next
  case (Cons cl calls)
  obtain r s where rs: "assemble_call msh cl a = (r, s)" by (cases "assemble_call msh cl a") auto
  have r: "r = Inr True" using assemble_call_ok(1) [OF Cons.prems, of msh cl] rs by simp
  have s: "triplets s = triplets a @ call_triplets msh (basis_size a) cl"
    "sys_size s = sys_size a" "basis_size s = basis_size a" "build_pc s = build_pc a"
    "pc_triplets s = pc_triplets a"
    using assemble_call_ok(2-6) [OF Cons.prems, of msh cl] rs by simp_all
  have "sys_size s \<noteq> 0" "basis_size s \<noteq> 0" using s Cons.prems by simp_all
  from Cons.IH [OF this] show ?case by (simp add: rs r s)
qed

lemma coord_sum_concat: "coord_sum (concat xss) r c = (\<Sum>xs\<leftarrow>xss. coord_sum xs r c)"
  by (induction xss) (simp_all add: coord_sum_append, simp add: coord_sum_def)

lemma entry_at_diag_triplets:
  "coord_sum (map (\<lambda>i. \<lparr>row = i, col = i, val = f i\<rparr>) [0..<n]) i j
     = (if i = j \<and> i < n then f i else 0)"
  by (induction n) (auto simp: coord_sum_def)

lemma asm2_lhs: "entry_at (lhs asm2) 0 0 = 1"
  by (simp add: asm2_def finalize_fields(6) asm1_eval entry_at_init coord_sum_def)

lemma asm3_fields: "sys_size asm3 = 1" "basis_size asm3 = 1"
  "triplets asm3 = [\<lparr>row = 0, col = 0, val = 1\<rparr>]"
  by (simp_all add: asm3_def assemble_ok asm2_fields block_triplets_def row_triplets_def elem_def
      mesh1_def)

text \<open>
  The buffer \<open>pc_temp\<close> of an assembler that builds the preconditioner is a running sum:
  every call adds, at each index \<open>i\<close>, the values it emits at the coordinate \<open>(i, i)\<close>.
\<close>

lemma entry_pc_temp:
  assumes "build_pc a" and "i < length (pc_temp a)"
  shows "pc_temp (assemble_entry ci cj v a) ! i
       = pc_temp a ! i + coord_sum [\<lparr>row = ci, col = cj, val = v\<rparr>] i i"
  using assms by (auto simp: assemble_entry_def Let_def coord_sum_def nth_list_update)

lemma row_loop_pc_temp:
  assumes "build_pc a" and "i < length (pc_temp a)"
  shows "pc_temp (foldl (\<lambda>s j. assemble_entry ci (g j) (h j) s) a js) ! i
       = pc_temp a ! i + coord_sum (map (\<lambda>j. \<lparr>row = ci, col = g j, val = h j\<rparr>) js) i i"
  using assms
proof (induction js arbitrary: a)
  case Nil
  show ?case by (simp add: coord_sum_def)
next
  case (Cons j js)
  have "coord_sum (map (\<lambda>j. \<lparr>row = ci, col = g j, val = h j\<rparr>) (j # js)) i i
      = coord_sum [\<lparr>row = ci, col = g j, val = h j\<rparr>] i i
        + coord_sum (map (\<lambda>j. \<lparr>row = ci, col = g j, val = h j\<rparr>) js) i i"
    by (simp add: coord_sum_def)
  then show ?case
    using Cons.prems by (simp add: Cons.IH entry_pc_temp)
qed

lemma assemble_row_pc_temp:
  assumes "build_pc a" and "i < length (pc_temp a)"
  shows "pc_temp (assemble_row oa ob block k a) ! i
       = pc_temp a ! i + coord_sum (row_triplets (basis_size a) oa ob block k) i i"
  using assms by (simp add: assemble_row_def Let_def row_loop_pc_temp row_triplets_def)

lemma rows_loop_pc_temp:
  assumes "build_pc a" and "i < length (pc_temp a)"
  shows "pc_temp (foldl (\<lambda>s k. assemble_row oa ob block k s) a ks) ! i
       = pc_temp a ! i + coord_sum (concat (map (row_triplets (basis_size a) oa ob block) ks)) i i"
  using assms
proof (induction ks arbitrary: a)
  case Nil
  show ?case by (simp add: coord_sum_def)
next
  case (Cons k ks)
  show ?case
    using Cons.prems by (simp add: Cons.IH assemble_row_pc_temp coord_sum_append)
qed

lemma assemble_rhs_row_pc_temp:
  assumes "build_pc a" and "i < length (pc_temp a)"
  shows "pc_temp (assemble_rhs_row o1 block v k a) ! i
       = pc_temp a ! i + coord_sum (row_triplets (basis_size a) o1 o1 block k) i i"
  using assms by (simp add: assemble_rhs_row_def Let_def assemble_row_pc_temp)

lemma rhs_rows_loop_pc_temp:
  assumes "build_pc a" and "i < length (pc_temp a)"
  shows "pc_temp (foldl (\<lambda>s k. assemble_rhs_row o1 block v k s) a ks) ! i
       = pc_temp a ! i + coord_sum (concat (map (row_triplets (basis_size a) o1 o1 block) ks)) i i"
  using assms
proof (induction ks arbitrary: a)
  case Nil
  show ?case by (simp add: coord_sum_def)
next
  case (Cons k ks)
  show ?case
    using Cons.prems by (simp add: Cons.IH assemble_rhs_row_pc_temp coord_sum_append)
qed

lemma assemble_call_pc_temp:
  assumes "sys_size a \<noteq> 0" "basis_size a \<noteq> 0" "build_pc a" "i < length (pc_temp a)"
  shows "pc_temp (snd (assemble_call msh cl a)) ! i
       = pc_temp a ! i + coord_sum (call_triplets msh (basis_size a) cl) i i"
    and "length (pc_temp (snd (assemble_call msh cl a))) = length (pc_temp a)"
  using assms
  by (cases cl; simp add: assemble_def assemble_rhs_def Let_def rows_loop_pc_temp
      rhs_rows_loop_pc_temp block_triplets_def rows_loop_fields rhs_rows_loop_fields)+

lemma pc_temp_accumulates:
  assumes "sys_size a \<noteq> 0" "basis_size a \<noteq> 0" "build_pc a" "i < length (pc_temp a)"
  shows "pc_temp (snd (assemble_all msh calls a)) ! i
       = pc_temp a ! i + (\<Sum>cl\<leftarrow>calls. coord_sum (call_triplets msh (basis_size a) cl) i i)
       \<and> length (pc_temp (snd (assemble_all msh calls a))) = length (pc_temp a)"
  using assms
proof (induction calls arbitrary: a)
  case Nil
  show ?case by simp
next
  case (Cons cl calls)
  obtain r s where rs: "assemble_call msh cl a = (r, s)" by (cases "assemble_call msh cl a") auto
  have r: "r = Inr True" using assemble_call_ok(1) [OF Cons.prems(1,2), of msh cl] rs by simp
  have s: "sys_size s \<noteq> 0" "basis_size s \<noteq> 0" "build_pc s" "basis_size s = basis_size a"
    using assemble_call_ok(3-5) [OF Cons.prems(1,2), of msh cl] rs Cons.prems by simp_all
  have p: "pc_temp s ! i = pc_temp a ! i + coord_sum (call_triplets msh (basis_size a) cl) i i"
    "length (pc_temp s) = length (pc_temp a)"
    using assemble_call_pc_temp [OF Cons.prems, of msh cl] rs by simp_all
  have "i < length (pc_temp s)" using p Cons.prems by simp
  from Cons.IH [OF s(1-3) this] show ?case by (simp add: rs r p s(4) add.assoc)
qed

section \<open>Properties of the local operators and of the error pass\<close>

lemma outer_vsmult: "outer (vsmult c u) v = smult c (outer u v)"
  by (simp add: outer_def vsmult_def smult_def mult.assoc)

lemma ar_face_qp_boundary:
  "ar_face_qp cfg tbasis nbasis n False (Att, Atn) fqp =
     (if dot (params_beta (qp_point fqp)) n < 0
      then madd Att (smult (qp_weight fqp * \<bar>dot (params_beta (qp_point fqp)) n\<bar>)
             (outer (basis_eval tbasis (qp_point fqp)) (basis_eval tbasis (qp_point fqp))))
      else Att, Atn)"
  by (simp add: ar_face_qp_def Let_def outer_vsmult)

lemma ar1_face_qp_boundary:
  "ar1_face_qp tbasis nbasis n False (Att, Atn) fqp =
     (if dot (params_beta (qp_point fqp)) n < 0
      then madd Att (smult (qp_weight fqp * \<bar>dot (params_beta (qp_point fqp)) n\<bar>)
             (outer (basis_eval tbasis (qp_point fqp)) (basis_eval tbasis (qp_point fqp))))
      else Att, Atn)"
  by (simp add: ar1_face_qp_def Let_def outer_vsmult)

lemma size_t_square:
  assumes "- (2 ^ 31) \<le> d" and "d < 2 ^ 31"
  shows "(3 * size_t_of_int d * size_t_of_int d) mod 2 ^ 64 = nat (3 * d * d)"
proof -
  have sq: "d * d \<le> 2 ^ 62"
  proof -
    have "\<bar>d\<bar> \<le> 2 ^ 31" using assms by simp
    then have "\<bar>d\<bar> * \<bar>d\<bar> \<le> 2 ^ 31 * 2 ^ 31" by (intro mult_mono) simp_all
    then show ?thesis by (simp add: abs_mult_self_eq)
  qed
  have nn: "0 \<le> d * d" by simp
  have "int ((3 * size_t_of_int d * size_t_of_int d) mod 2 ^ 64)
      = (3 * (d mod 2 ^ 64) * (d mod 2 ^ 64)) mod 2 ^ 64"
    by (simp add: size_t_of_int_def zmod_int)
  also have "\<dots> = (3 * d * d) mod 2 ^ 64"
    by (metis (no_types, opaque_lifting) mod_mult_left_eq mod_mult_right_eq mult.assoc)
  also have "\<dots> = 3 * d * d" using sq nn by (simp add: mult.assoc)
  finally have "int ((3 * size_t_of_int d * size_t_of_int d) mod 2 ^ 64) = 3 * d * d" .
  then show ?thesis by (metis nat_int)
qed

lemma diff_eta_value:
  assumes "- (2 ^ 31) \<le> degree cfg" and "degree cfg < 2 ^ 31"
  shows "diff_eta cfg = 3 * eta cfg * (real_of_int (degree cfg))\<^sup>2"
proof -
  have "real (nat (3 * degree cfg * degree cfg)) = 3 * (real_of_int (degree cfg))\<^sup>2"
    by (simp add: power2_eq_square mult.assoc)
  then show ?thesis
    using size_t_square [OF assms] by (simp add: diff_eta_def Let_def)
qed

lemma cfg1_eta: "diff_eta cfg1 = 3"
proof -
  have "- (2 ^ 31) \<le> degree cfg1" "degree cfg1 < 2 ^ 31" by (simp_all add: cfg1_def)
  from diff_eta_value [OF this] show ?thesis by (simp add: cfg1_def)
qed

lemma assemble_initialized:
  assumes "initialized a"
  shows "fst (assemble msh cl_a cl_b block a) = Inr True"
    and "initialized (snd (assemble msh cl_a cl_b block a))"
  using assms assemble_ok(1,4,5) [of a msh cl_a cl_b block] by (simp_all add: initialized_def)

lemma assemble_rhs_initialized:
  assumes "initialized a"
  shows "fst (assemble_rhs msh cl block v a) = Inr True"
    and "initialized (snd (assemble_rhs msh cl block v a))"
  using assms assemble_rhs_ok(1,4,5) [of a msh cl block v] by (simp_all add: initialized_def)

lemma for_each_iff:
  assumes step: "\<And>x s. P s \<Longrightarrow> (fst (body x s) = Inr ()) = Q x"
    and pres: "\<And>x s. P s \<Longrightarrow> P (snd (body x s))"
    and "P s"
  shows "(fst (for_each body xs s) = Inr ()) = (\<forall>x \<in> set xs. Q x) \<and> P (snd (for_each body xs s))"
  using \<open>P s\<close>
proof (induction xs arbitrary: s)
  case Nil
  then show ?case by simp
next
  case (Cons x xs)
  obtain r s' where b: "body x s = (r, s')" by (cases "body x s") auto
  have p: "P s'" using pres [OF Cons.prems, of x] b by simp
  show ?case
  proof (cases r)
    case (Inl e)
    then have "\<not> Q x" using step [OF Cons.prems, of x] b by simp
    with Inl b p show ?thesis by simp
  next
    case (Inr u)
    then have "Q x" using step [OF Cons.prems, of x] b by simp
    with Inr b Cons.IH [OF p] show ?thesis by simp
  qed
qed

lemma assemble_case:
  assumes "initialized a"
  shows "(case assemble msh cl_a cl_b block a of (Inl e, s) \<Rightarrow> f e s | (Inr b, s) \<Rightarrow> g b s)
         = g True (snd (assemble msh cl_a cl_b block a))"
proof -
  have "assemble msh cl_a cl_b block a = (Inr True, snd (assemble msh cl_a cl_b block a))"
    by (metis assemble_initialized(1) [OF assms] prod.collapse)
  then show ?thesis by (metis (mono_tags, lifting) old.sum.simps(6) split_conv)
qed

lemma assemble_rhs_case:
  assumes "initialized a"
  shows "(case assemble_rhs msh cl block v a of (Inl e, s) \<Rightarrow> f e s | (Inr b, s) \<Rightarrow> g b s)
         = g True (snd (assemble_rhs msh cl block v a))"
proof -
  have "assemble_rhs msh cl block v a = (Inr True, snd (assemble_rhs msh cl block v a))"
    by (metis assemble_rhs_initialized(1) [OF assms] prod.collapse)
  then show ?thesis by (metis (mono_tags, lifting) old.sum.simps(6) split_conv)
qed

lemma ar_face_iff:
  assumes "initialized assm"
  shows "(fst (ar_face msh cfg deg tcl tbasis fc assm) = Inr ()) = neighbour_basis_ok msh deg tcl tbasis fc"
    and "initialized (snd (ar_face msh cfg deg tcl tbasis fc assm))"
  using assms
  by (simp_all add: ar_face_def neighbour_basis_ok_def Let_def assemble_case
      assemble_initialized(2) split: option.splits)

lemma ar1_face_iff:
  assumes "initialized assm"
  shows "(fst (ar1_face msh deg tcl tbasis fc assm) = Inr ()) = neighbour_basis_ok msh deg tcl tbasis fc"
    and "initialized (snd (ar1_face msh deg tcl tbasis fc assm))"
  using assms
  by (simp_all add: ar1_face_def neighbour_basis_ok_def Let_def assemble_case
      assemble_initialized(2) split: option.splits)

lemma diff_face_iff:
  assumes "initialized (snd st)"
  shows "(fst (diff_face msh cfg deg tcl tbasis fc st) = Inr ()) = neighbour_basis_ok msh deg tcl tbasis fc"
    and "initialized (snd (snd (diff_face msh cfg deg tcl tbasis fc st)))"
  using assms
  by (simp_all add: diff_face_def neighbour_basis_ok_def Let_def assemble_case
      assemble_initialized(2) split: option.splits)

lemma ar_cell_iff:
  assumes "initialized assm" and "make_basis msh tcl deg = Some tbasis"
  shows "(fst (ar_cell msh cfg deg tcl assm) = Inr ())
       = (\<forall>fc \<in> set (faces msh tcl). neighbour_basis_ok msh deg tcl tbasis fc)"
proof -
  let ?body = "ar_face msh cfg deg tcl tbasis"
  obtain r s where f: "for_each ?body (faces msh tcl) assm = (r, s)"
    by (cases "for_each ?body (faces msh tcl) assm") auto
  have "(fst (for_each ?body (faces msh tcl) assm) = Inr ())
          = (\<forall>fc \<in> set (faces msh tcl). neighbour_basis_ok msh deg tcl tbasis fc)
        \<and> initialized (snd (for_each ?body (faces msh tcl) assm))"
  proof (rule for_each_iff [where P = initialized])
    show "\<And>x s. initialized s \<Longrightarrow>
        (fst (?body x s) = Inr ()) = neighbour_basis_ok msh deg tcl tbasis x"
      by (rule ar_face_iff(1))
    show "\<And>x s. initialized s \<Longrightarrow> initialized (snd (?body x s))"
      by (rule ar_face_iff(2))
    show "initialized assm" by (rule assms(1))
  qed
  with f have r: "(r = Inr ()) = (\<forall>fc \<in> set (faces msh tcl). neighbour_basis_ok msh deg tcl tbasis fc)"
    and s: "initialized s" by simp_all
  show ?thesis
    using r s by (cases r) (simp_all add: ar_cell_def assms(2) f Let_def assemble_rhs_case)
qed

lemma ar1_cell_iff:
  assumes "initialized assm" and "make_basis msh tcl deg = Some tbasis"
  shows "(fst (ar1_cell msh deg tcl assm) = Inr ())
       = (\<forall>fc \<in> set (faces msh tcl). neighbour_basis_ok msh deg tcl tbasis fc)"
proof -
  let ?body = "ar1_face msh deg tcl tbasis"
  obtain r s where f: "for_each ?body (faces msh tcl) assm = (r, s)"
    by (cases "for_each ?body (faces msh tcl) assm") auto
  have "(fst (for_each ?body (faces msh tcl) assm) = Inr ())
          = (\<forall>fc \<in> set (faces msh tcl). neighbour_basis_ok msh deg tcl tbasis fc)
        \<and> initialized (snd (for_each ?body (faces msh tcl) assm))"
  proof (rule for_each_iff [where P = initialized])
    show "\<And>x s. initialized s \<Longrightarrow>
        (fst (?body x s) = Inr ()) = neighbour_basis_ok msh deg tcl tbasis x"
      by (rule ar1_face_iff(1))
    show "\<And>x s. initialized s \<Longrightarrow> initialized (snd (?body x s))"
      by (rule ar1_face_iff(2))
    show "initialized assm" by (rule assms(1))
  qed
  with f have r: "(r = Inr ()) = (\<forall>fc \<in> set (faces msh tcl). neighbour_basis_ok msh deg tcl tbasis fc)"
    and s: "initialized s" by simp_all
  show ?thesis
    using r s by (cases r) (simp_all add: ar1_cell_def assms(2) f Let_def assemble_rhs_case)
qed

lemma diff_cell_iff:
  assumes "initialized assm" and "make_basis msh tcl deg = Some tbasis"
  shows "(fst (diff_cell msh cfg deg tcl assm) = Inr ())
       = (\<forall>fc \<in> set (faces msh tcl). neighbour_basis_ok msh deg tcl tbasis fc)"
proof -
  let ?body = "diff_face msh cfg deg tcl tbasis"
  let ?st = "(snd (foldl (diff_volume_qp tbasis)
                     (zero_mat (bsize tbasis) (bsize tbasis), zero_vec (bsize tbasis))
                     (integrate_cell msh tcl (quad_order deg))), assm)"
  obtain r s where f: "for_each ?body (faces msh tcl) ?st = (r, s)"
    by (cases "for_each ?body (faces msh tcl) ?st") auto
  have "(fst (for_each ?body (faces msh tcl) ?st) = Inr ())
          = (\<forall>fc \<in> set (faces msh tcl). neighbour_basis_ok msh deg tcl tbasis fc)
        \<and> initialized (snd (snd (for_each ?body (faces msh tcl) ?st)))"
  proof (rule for_each_iff [where P = "\<lambda>st. initialized (snd st)"])
    show "\<And>x s. initialized (snd s) \<Longrightarrow>
        (fst (?body x s) = Inr ()) = neighbour_basis_ok msh deg tcl tbasis x"
      by (rule diff_face_iff(1))
    show "\<And>x s. initialized (snd s) \<Longrightarrow> initialized (snd (snd (?body x s)))"
      by (rule diff_face_iff(2))
    show "initialized (snd ?st)" using assms(1) by simp
  qed
  with f have r: "(r = Inr ()) = (\<forall>fc \<in> set (faces msh tcl). neighbour_basis_ok msh deg tcl tbasis fc)"
    and s: "initialized (snd s)" by simp_all
  show ?thesis
    using r s by (cases r) (simp_all add: diff_cell_def assms(2) f Let_def assemble_rhs_case)
qed

lemma neighbour_basis_ok_iff:
  "neighbour_basis_ok msh deg tcl tbasis fc
   = (\<exists>nbasis. make_basis msh (fst (neighbour_via msh tcl fc)) deg = Some nbasis
        \<and> bsize tbasis = bsize nbasis)"
  by (simp add: neighbour_basis_ok_def split: option.splits)

lemma err_qp_step:
  "err_qp ref_sol b loc_sol (M0, a0, e0) qp =
     (madd M0 (smult (qp_weight qp)
                 (outer (basis_eval b (qp_point qp)) (basis_eval b (qp_point qp)))),
      vadd a0 (vsmult (qp_weight qp * ref_sol (qp_point qp)) (basis_eval b (qp_point qp))),
      e0 + qp_weight qp * (ref_sol (qp_point qp) - dot loc_sol (basis_eval b (qp_point qp)))\<^sup>2)"
  by (simp add: err_qp_def Let_def outer_vsmult power2_eq_square mult.assoc)

lemma err_qp_fold:
  "foldl (err_qp ref_sol b loc_sol) (M0, a0, e0) qps =
     (foldl madd M0
        (map (\<lambda>qp. smult (qp_weight qp)
                     (outer (basis_eval b (qp_point qp)) (basis_eval b (qp_point qp)))) qps),
      foldl vadd a0
        (map (\<lambda>qp. vsmult (qp_weight qp * ref_sol (qp_point qp)) (basis_eval b (qp_point qp))) qps),
      e0 + (\<Sum>qp\<leftarrow>qps. qp_weight qp * (ref_sol (qp_point qp) - dot loc_sol (basis_eval b (qp_point qp)))\<^sup>2))"
proof (induction qps arbitrary: M0 a0 e0)
  case Nil
  show ?case by simp
next
  case (Cons qp qps)
  show ?case
    by (simp add: err_qp_step Cons.IH add.assoc)
qed

lemma err_cell_eq:
  assumes "make_basis msh cl deg = Some b"
  shows "err_cell ref_sol solve_LU msh deg sol cl status =
     (Inr (), status\<lparr>L2_errsq_qp := L2_errsq_qp status + cell_qp_error ref_sol msh deg sol cl,
                     L2_errsq_mm := L2_errsq_mm status + cell_mm_error ref_sol solve_LU msh deg sol cl\<rparr>)"
  by (simp add: err_cell_def assms Let_def err_qp_fold cell_qp_error_def cell_mm_error_def
      cell_mass_def cell_load_def cell_sol_def mass_matrix_def load_vector_def
      coefficient_block_def mass_form_def)

lemma err_cells_fold:
  assumes "\<forall>cl \<in> set cls. make_basis msh cl deg \<noteq> None"
  shows "for_each (err_cell ref_sol solve_LU msh deg sol) cls st =
     (Inr (), st\<lparr>L2_errsq_qp := L2_errsq_qp st + (\<Sum>cl\<leftarrow>cls. cell_qp_error ref_sol msh deg sol cl),
                 L2_errsq_mm := L2_errsq_mm st
                    + (\<Sum>cl\<leftarrow>cls. cell_mm_error ref_sol solve_LU msh deg sol cl)\<rparr>)"
  using assms
proof (induction cls arbitrary: st)
  case Nil
  show ?case by simp
next
  case (Cons cl cls)
  from Cons.prems obtain b where b: "make_basis msh cl deg = Some b" by auto
  from Cons.prems have r: "\<forall>cl \<in> set cls. make_basis msh cl deg \<noteq> None" by simp
  show ?case
    by (simp add: err_cell_eq [OF b] Cons.IH [OF r] add.assoc)
qed

lemma mesh1_cell_values:
  "cell_mass mesh1 0 0 = [[1]]" "cell_load adv_ref_sol mesh1 0 0 = [0]"
  "cell_sol mesh1 0 [2] 0 = [2]" "cell_qp_error adv_ref_sol mesh1 0 [2] 0 = 4"
  by (simp_all add: cell_mass_def cell_load_def cell_sol_def cell_qp_error_def mesh1_def
      mass_matrix_def load_vector_def coefficient_block_def basis1_def zero_mat_def zero_vec_def
      madd_def vadd_def smult_def vsmult_def outer_def adv_ref_sol_def dot_def)

text \<open>
  Assembling a zero block appends zero-valued triplets and changes nothing else; on a
  boundary face the face pass assembles the sum of the inflow terms as the self-block,
  and nothing as the neighbour block.
\<close>

lemma entry_zero:
  "assemble_entry ci cj 0 a = a\<lparr>triplets := triplets a @ [\<lparr>row = ci, col = cj, val = 0\<rparr>]\<rparr>"
  by (simp add: assemble_entry_def Let_def)

lemma row_loop_zero:
  "foldl (\<lambda>s j. assemble_entry ci (g j) 0 s) a js
     = a\<lparr>triplets := triplets a @ map (\<lambda>j. \<lparr>row = ci, col = g j, val = 0\<rparr>) js\<rparr>"
  by (induction js arbitrary: a) (simp_all add: entry_zero)

lemma elem_zero_mat: "i < m \<Longrightarrow> j < n \<Longrightarrow> elem (zero_mat m n) i j = 0"
  by (simp add: elem_def zero_mat_def)

lemma assemble_row_zero:
  assumes "i < basis_size a"
  shows "assemble_row oa ob (zero_mat (basis_size a) (basis_size a)) i a
     = a\<lparr>triplets := triplets a @ map (\<lambda>j. \<lparr>row = oa + i, col = ob + j, val = 0\<rparr>) [0..<basis_size a]\<rparr>"
proof -
  have "foldl (\<lambda>s j. assemble_entry (oa + i) (ob + j)
            (elem (zero_mat (basis_size a) (basis_size a)) i j) s) a [0..<basis_size a]
      = foldl (\<lambda>s j. assemble_entry (oa + i) (ob + j) 0 s) a [0..<basis_size a]"
    by (rule foldl_cong) (simp_all add: elem_zero_mat assms)
  then show ?thesis
    by (simp add: assemble_row_def Let_def row_loop_zero)
qed

lemma rows_loop_zero:
  assumes "set is \<subseteq> {0..<basis_size a}"
  shows "foldl (\<lambda>s i. assemble_row oa ob (zero_mat (basis_size a) (basis_size a)) i s) a is
     = a\<lparr>triplets := triplets a @
          concat (map (\<lambda>i. map (\<lambda>j. \<lparr>row = oa + i, col = ob + j, val = 0\<rparr>) [0..<basis_size a]) is)\<rparr>"
  using assms
proof (induction "is" arbitrary: a)
  case Nil
  show ?case by simp
next
  case (Cons i "is")
  let ?a1 = "a\<lparr>triplets := triplets a @ map (\<lambda>j. \<lparr>row = oa + i, col = ob + j, val = 0\<rparr>) [0..<basis_size a]\<rparr>"
  have i: "i < basis_size a" using Cons.prems by simp
  have b: "basis_size ?a1 = basis_size a" by simp
  have "set is \<subseteq> {0..<basis_size ?a1}" using Cons.prems by simp
  from Cons.IH [OF this] show ?case
    by (simp add: assemble_row_zero [OF i])
qed

lemma assemble_zero_block:
  assumes "sys_size a \<noteq> 0" and "basis_size a \<noteq> 0"
  shows "assemble msh cl cl (zero_mat (basis_size a) (basis_size a)) a
     = (Inr True, a\<lparr>triplets := triplets a
                      @ zero_block_triplets (basis_size a) (offset msh cl * basis_size a)\<rparr>)"
  using assms rows_loop_zero [of "[0..<basis_size a]" a]
  by (simp add: assemble_def Let_def zero_block_triplets_def)

lemma ar_boundary_fold:
  "foldl (ar_face_qp cfg tbasis nbasis n False) (Att, Atn) fqps =
     (foldl (\<lambda>Att fqp. if dot (params_beta (qp_point fqp)) n < 0
               then madd Att (smult (qp_weight fqp * \<bar>dot (params_beta (qp_point fqp)) n\<bar>)
                      (outer (basis_eval tbasis (qp_point fqp)) (basis_eval tbasis (qp_point fqp))))
               else Att) Att fqps, Atn)"
  by (induction fqps arbitrary: Att) (simp_all add: ar_face_qp_boundary)

lemma ar1_boundary_fold:
  "foldl (ar1_face_qp tbasis nbasis n False) (Att, Atn) fqps =
     (foldl (\<lambda>Att fqp. if dot (params_beta (qp_point fqp)) n < 0
               then madd Att (smult (qp_weight fqp * \<bar>dot (params_beta (qp_point fqp)) n\<bar>)
                      (outer (basis_eval tbasis (qp_point fqp)) (basis_eval tbasis (qp_point fqp))))
               else Att) Att fqps, Atn)"
  by (induction fqps arbitrary: Att) (simp_all add: ar1_face_qp_boundary)

lemma inflow_fold_outflow:
  "\<forall>q \<in> set fqps. 0 \<le> dot (params_beta (qp_point q)) n \<Longrightarrow>
   foldl (\<lambda>Att fqp. if dot (params_beta (qp_point fqp)) n < 0
               then madd Att (smult (qp_weight fqp * \<bar>dot (params_beta (qp_point fqp)) n\<bar>)
                      (outer (basis_eval tbasis (qp_point fqp)) (basis_eval tbasis (qp_point fqp))))
               else Att) Att fqps = Att"
  by (induction fqps) simp_all

lemma ar_face_boundary:
  assumes "initialized assm" and "neighbour_via msh tcl fc = (ncl, False)"
    and "make_basis msh ncl deg = Some nbasis" and "bsize tbasis = bsize nbasis"
  shows "ar_face msh cfg deg tcl tbasis fc assm =
     (Inr (), snd (assemble msh tcl tcl
        (foldl (\<lambda>Att fqp. if dot (params_beta (qp_point fqp)) (normal msh tcl fc) < 0
               then madd Att (smult (qp_weight fqp * \<bar>dot (params_beta (qp_point fqp)) (normal msh tcl fc)\<bar>)
                      (outer (basis_eval tbasis (qp_point fqp)) (basis_eval tbasis (qp_point fqp))))
               else Att)
           (zero_mat (bsize tbasis) (bsize tbasis)) (integrate_face msh fc (quad_order deg))) assm))"
  using assms(2-4)
  by (simp add: ar_face_def Let_def ar_boundary_fold assemble_case [OF assms(1)])

lemma ar1_face_boundary:
  assumes "initialized assm" and "neighbour_via msh tcl fc = (ncl, False)"
    and "make_basis msh ncl deg = Some nbasis" and "bsize tbasis = bsize nbasis"
  shows "ar1_face msh deg tcl tbasis fc assm =
     (Inr (), snd (assemble msh tcl tcl
        (foldl (\<lambda>Att fqp. if dot (params_beta (qp_point fqp)) (normal msh tcl fc) < 0
               then madd Att (smult (qp_weight fqp * \<bar>dot (params_beta (qp_point fqp)) (normal msh tcl fc)\<bar>)
                      (outer (basis_eval tbasis (qp_point fqp)) (basis_eval tbasis (qp_point fqp))))
               else Att)
           (zero_mat (bsize tbasis) (bsize tbasis)) (integrate_face msh fc (quad_order deg))) assm))"
  using assms(2-4)
  by (simp add: ar1_face_def Let_def ar1_boundary_fold assemble_case [OF assms(1)])

lemma ar_face_outflow:
  assumes "initialized assm" and "bsize tbasis = basis_size assm"
    and "outflow_boundary_face msh deg tcl tbasis fc"
  shows "ar_face msh cfg deg tcl tbasis fc assm =
     (Inr (), assm\<lparr>triplets := triplets assm
        @ zero_block_triplets (basis_size assm) (offset msh tcl * basis_size assm)\<rparr>)"
    and "ar1_face msh deg tcl tbasis fc assm =
     (Inr (), assm\<lparr>triplets := triplets assm
        @ zero_block_triplets (basis_size assm) (offset msh tcl * basis_size assm)\<rparr>)"
proof -
  obtain ncl where nv: "neighbour_via msh tcl fc = (ncl, False)"
    using assms(3) by (cases "neighbour_via msh tcl fc") (auto simp: outflow_boundary_face_def)
  obtain nbasis where nb: "make_basis msh ncl deg = Some nbasis" "bsize tbasis = bsize nbasis"
    using assms(3) nv by (auto simp: outflow_boundary_face_def neighbour_basis_ok_def split: option.splits)
  have out: "\<forall>q \<in> set (integrate_face msh fc (quad_order deg)).
      0 \<le> dot (params_beta (qp_point q)) (normal msh tcl fc)"
    using assms(3) by (simp add: outflow_boundary_face_def list_all_iff)
  have i: "sys_size assm \<noteq> 0" "basis_size assm \<noteq> 0" using assms(1) by (simp_all add: initialized_def)
  show "ar_face msh cfg deg tcl tbasis fc assm =
     (Inr (), assm\<lparr>triplets := triplets assm
        @ zero_block_triplets (basis_size assm) (offset msh tcl * basis_size assm)\<rparr>)"
    by (simp add: ar_face_boundary [OF assms(1) nv nb] inflow_fold_outflow [OF out]
        assms(2) assemble_zero_block [OF i])
  show "ar1_face msh deg tcl tbasis fc assm =
     (Inr (), assm\<lparr>triplets := triplets assm
        @ zero_block_triplets (basis_size assm) (offset msh tcl * basis_size assm)\<rparr>)"
    by (simp add: ar1_face_boundary [OF assms(1) nv nb] inflow_fold_outflow [OF out]
        assms(2) assemble_zero_block [OF i])
qed

lemma faces_loop_outflow:
  assumes "initialized a" and "bsize tbasis = basis_size a"
    and "list_all (outflow_boundary_face msh deg tcl tbasis) fcs"
  shows "for_each (ar_face msh cfg deg tcl tbasis) fcs a =
     (Inr (), a\<lparr>triplets := triplets a
        @ concat (map (\<lambda>fc. zero_block_triplets (basis_size a) (offset msh tcl * basis_size a)) fcs)\<rparr>)
   \<and> for_each (ar1_face msh deg tcl tbasis) fcs a =
     (Inr (), a\<lparr>triplets := triplets a
        @ concat (map (\<lambda>fc. zero_block_triplets (basis_size a) (offset msh tcl * basis_size a)) fcs)\<rparr>)"
  using assms
proof (induction fcs arbitrary: a)
  case Nil
  show ?case by simp
next
  case (Cons fc fcs)
  let ?a1 = "a\<lparr>triplets := triplets a
        @ zero_block_triplets (basis_size a) (offset msh tcl * basis_size a)\<rparr>"
  have f: "outflow_boundary_face msh deg tcl tbasis fc"
    and r: "list_all (outflow_boundary_face msh deg tcl tbasis) fcs"
    using Cons.prems(3) by simp_all
  have i1: "initialized ?a1" using Cons.prems(1) by (simp add: initialized_def)
  have b1: "bsize tbasis = basis_size ?a1" using Cons.prems(2) by simp
  from Cons.IH [OF i1 b1 r] show ?case
    by (simp add: ar_face_outflow [OF Cons.prems(1,2) f])
qed

lemma ar_cell_outflow:
  assumes "initialized a" and "make_basis msh tcl deg = Some tbasis"
    and "bsize tbasis = basis_size a"
    and "list_all (outflow_boundary_face msh deg tcl tbasis) (faces msh tcl)"
  shows "ar_cell msh cfg deg tcl a =
     (Inr (), snd (assemble_rhs msh tcl
        (fst (foldl (ar_volume_qp tbasis)
               (zero_mat (bsize tbasis) (bsize tbasis), zero_vec (bsize tbasis))
               (integrate_cell msh tcl (quad_order deg))))
        (snd (foldl (ar_volume_qp tbasis)
               (zero_mat (bsize tbasis) (bsize tbasis), zero_vec (bsize tbasis))
               (integrate_cell msh tcl (quad_order deg))))
        (a\<lparr>triplets := triplets a
           @ concat (map (\<lambda>fc. zero_block_triplets (basis_size a) (offset msh tcl * basis_size a))
                       (faces msh tcl))\<rparr>)))"
    and "ar1_cell msh deg tcl a =
     (Inr (), snd (assemble_rhs msh tcl
        (fst (foldl (ar_volume_qp tbasis)
               (zero_mat (bsize tbasis) (bsize tbasis), zero_vec (bsize tbasis))
               (integrate_cell msh tcl (quad_order deg))))
        (snd (foldl (ar_volume_qp tbasis)
               (zero_mat (bsize tbasis) (bsize tbasis), zero_vec (bsize tbasis))
               (integrate_cell msh tcl (quad_order deg))))
        (a\<lparr>triplets := triplets a
           @ concat (map (\<lambda>fc. zero_block_triplets (basis_size a) (offset msh tcl * basis_size a))
                       (faces msh tcl))\<rparr>)))"
proof -
  let ?a1 = "a\<lparr>triplets := triplets a
           @ concat (map (\<lambda>fc. zero_block_triplets (basis_size a) (offset msh tcl * basis_size a))
                       (faces msh tcl))\<rparr>"
  have i1: "initialized ?a1" using assms(1) by (simp add: initialized_def)
  note L = faces_loop_outflow [OF assms(1,3,4), of cfg]
  show "ar_cell msh cfg deg tcl a =
     (Inr (), snd (assemble_rhs msh tcl
        (fst (foldl (ar_volume_qp tbasis)
               (zero_mat (bsize tbasis) (bsize tbasis), zero_vec (bsize tbasis))
               (integrate_cell msh tcl (quad_order deg))))
        (snd (foldl (ar_volume_qp tbasis)
               (zero_mat (bsize tbasis) (bsize tbasis), zero_vec (bsize tbasis))
               (integrate_cell msh tcl (quad_order deg))))
        ?a1))"
    using L by (simp add: ar_cell_def assms(2) Let_def assemble_rhs_case [OF i1])
  show "ar1_cell msh deg tcl a =
     (Inr (), snd (assemble_rhs msh tcl
        (fst (foldl (ar_volume_qp tbasis)
               (zero_mat (bsize tbasis) (bsize tbasis), zero_vec (bsize tbasis))
               (integrate_cell msh tcl (quad_order deg))))
        (snd (foldl (ar_volume_qp tbasis)
               (zero_mat (bsize tbasis) (bsize tbasis), zero_vec (bsize tbasis))
               (integrate_cell msh tcl (quad_order deg))))
        ?a1))"
    using L by (simp add: ar1_cell_def assms(2) Let_def assemble_rhs_case [OF i1])
qed

lemma cfg1_degree: "size_t_of_int (degree cfg1) = Suc 0"
  by (simp add: cfg1_def size_t_of_int_def)

lemma mesh3_new:
  "assembler_new mesh3 k bpc b = \<lparr>triplets = [], pc_triplets = [], sys_size = 4, basis_size = 2,
      build_pc = True, lhs = \<lparr>nrows = 4, ncols = 4, entries = Map.empty\<rparr>, rhs = [0, 0, 0, 0],
      pc = \<lparr>nrows = 4, ncols = 4, entries = Map.empty\<rparr>, pc_temp = [0, 0, 0, 0]\<rparr>"
  by (simp add: assembler_new_def initialize_def assembler_default_def mesh3_def Let_def
      resize_sparse_def resize_vec_def sparse_empty_def numeral_eq_Suc)

lemma asm_m3_fields:
  "sys_size asm_m3 = 4" "basis_size asm_m3 = 2" "triplets asm_m3 = []" "build_pc asm_m3"
  "pc_temp asm_m3 = [0, 0, 0, 0]"
  by (simp_all add: asm_m3_def mesh3_new)

lemma mesh1_new:
  "assembler_new mesh1 k bpc b = \<lparr>triplets = [], pc_triplets = [], sys_size = 1, basis_size = 1,
      build_pc = True, lhs = \<lparr>nrows = 1, ncols = 1, entries = Map.empty\<rparr>, rhs = [0],
      pc = \<lparr>nrows = 1, ncols = 1, entries = Map.empty\<rparr>, pc_temp = [0]\<rparr>"
  by (simp add: assembler_new_def initialize_def assembler_default_def mesh1_def Let_def
      resize_sparse_def resize_vec_def sparse_empty_def)

lemma mesh3_inflow_block:
  "foldl (\<lambda>Att fqp.
            if dot (params_beta (qp_point fqp)) (normal mesh3 0 3) < 0
            then madd Att
                   (smult (qp_weight fqp * \<bar>dot (params_beta (qp_point fqp)) (normal mesh3 0 3)\<bar>)
                      (outer (basis_eval basis2 (qp_point fqp)) (basis_eval basis2 (qp_point fqp))))
            else Att)
     (zero_mat (bsize basis2) (bsize basis2)) (integrate_face mesh3 3 k)
   = [[1 / 2, 1], [1, 2]]"
  by (simp add: mesh3_def basis2_def zero_mat_def dot_def params_beta_def madd_def smult_def
      outer_def vsmult_def vadd_def numeral_eq_Suc)

lemma assemble_m3_cell0:
  "triplets (snd (assemble mesh3 0 0 [[a, b], [c, d]] asm_m3))
     = [\<lparr>row = 0, col = 0, val = a\<rparr>, \<lparr>row = 0, col = 1, val = b\<rparr>,
        \<lparr>row = 1, col = 0, val = c\<rparr>, \<lparr>row = 1, col = 1, val = d\<rparr>]"
  by (simp add: assemble_ok(2) asm_m3_fields block_triplets_def row_triplets_def elem_def upt2
      mesh3_def)

lemma mesh1_volume:
  "foldl (ar_volume_qp basis1) (zero_mat (bsize basis1) (bsize basis1), zero_vec (bsize basis1))
     (integrate_cell mesh1 0 k) = ([[1]], [pi])"
  by (simp add: mesh1_def basis1_def zero_mat_def zero_vec_def ar_volume_qp_def Let_def
      params_mu_def params_beta_def adv_rhs_def madd_def vadd_def outer_def vsmult_def
      mat_vec_def dot_def)

lemma mesh1_outflow: "list_all (outflow_boundary_face mesh1 k 0 basis1) (faces mesh1 0)"
  by (simp add: outflow_boundary_face_def neighbour_basis_ok_def mesh1_def dot_def
      params_beta_def)

lemma mesh3_outflow: "outflow_boundary_face mesh3 k 2 basis2 5"
  by (simp add: outflow_boundary_face_def neighbour_basis_ok_def mesh3_def dot_def
      params_beta_def)

lemma mesh1_final:
  "finalize (snd (assemble_rhs mesh1 0 [[1]] [pi]
      ((assembler_new mesh1 k bpc b)\<lparr>triplets := [\<lparr>row = 0, col = 0, val = 0\<rparr>]\<rparr>)))
   = (Inr (), \<lparr>triplets = [], pc_triplets = [], sys_size = 1, basis_size = 1,
      build_pc = True,
      lhs = \<lparr>nrows = 1, ncols = 1, entries = [(0, 0) \<mapsto> 1]\<rparr>, rhs = [pi],
      pc = \<lparr>nrows = 1, ncols = 1, entries = [(0, 0) \<mapsto> 1]\<rparr>, pc_temp = [1]\<rparr>)"
proof -
  have m: "offset mesh1 0 = 0" by (simp add: mesh1_def)
  show ?thesis
    unfolding mesh1_new
    by (simp add: assemble_rhs_def assemble_rhs_row_def assemble_row_def
        assemble_entry_def Let_def elem_def finalize_def init_from_triplets_def add_entry_def m)
qed

lemma diff_face_qp_explicit:
  "diff_face_qp pen tbasis nbasis n has_neighbour =
     (\<lambda>A fqp.
        let w = qp_weight fqp;
            phi = basis_eval tbasis (qp_point fqp);
            g = mat_vec (basis_eval_grads tbasis (qp_point fqp)) n;
            psi = basis_eval nbasis (qp_point fqp);
            gn = mat_vec (basis_eval_grads nbasis (qp_point fqp)) n
        in if has_neighbour
           then (madd (madd (madd (fst A) (smult (w * pen) (outer phi phi)))
                         (smult (- (w / 2)) (outer phi g)))
                   (smult (- (w / 2)) (outer g phi)),
                 madd (madd (madd (fst (snd A)) (smult (- (w * pen)) (outer phi psi)))
                         (smult (- (w / 2)) (outer phi gn)))
                   (smult (w / 2) (outer g psi)),
                 snd (snd A))
           else (madd (madd (madd (fst A) (smult (w * pen) (outer phi phi)))
                         (smult (- w) (outer phi g)))
                   (smult (- w) (outer g phi)),
                 fst (snd A),
                 vadd (vsub (snd (snd A)) (vsmult (w * dirichlet (qp_point fqp)) g))
                   (vsmult (w * pen * dirichlet (qp_point fqp)) phi)))"
  by (intro ext) (simp add: diff_face_qp_def Let_def outer_vsmult)

lemma mesh3_fields:
  "neighbour_via mesh3 0 0 = (2, True)" "neighbour_via mesh3 0 3 = (0, False)"
  "make_basis mesh3 c k = Some basis2" "face_diameter mesh3 f = 1 / 2"
  "normal mesh3 0 0 = [1, 0]" "normal mesh3 0 3 = [-1, 0]"
  "integrate_face mesh3 f k = [\<lparr>qp_point = (2, 0), qp_weight = 1 / 2\<rparr>]"
  "offset mesh3 0 = 0" "offset mesh3 2 = 1"
  by (simp_all add: mesh3_def)

lemma cfg1_fields: "eta cfg1 = 1" "degree cfg1 = 1"
  by (simp_all add: cfg1_def)

lemma mesh3_pen: "diff_eta_l mesh3 cfg1 f = 6"
  by (simp add: diff_eta_l_def cfg1_eta mesh3_fields)

lemma basis2_fields: "bsize basis2 = 2" "basis_eval basis2 (2, 0) = [1, 2]"
  "basis_eval_grads basis2 p = [[0, 0], [1, 0]]"
  by (simp_all add: basis2_def)

lemma zero2: "zero_mat 2 2 = [[0, 0], [0, 0]]"
  by (simp add: zero_mat_def numeral_eq_Suc)

lemma mesh3_interior_blocks:
  "diff_face_blocks mesh3 cfg1 k 0 basis2 basis2 True 0 [0, 0]
     = ([[3, 23 / 4], [23 / 4, 11]], [[-3, - (25 / 4)], [- (23 / 4), -12]], [0, 0])"
  by (simp add: diff_face_blocks_def Let_def mesh3_pen mesh3_fields basis2_fields zero2
      diff_face_qp_def madd_def vadd_def vsub_def outer_def vsmult_def mat_vec_def dot_def
      dirichlet_def)

lemma mesh3_boundary_blocks:
  "diff_face_blocks mesh3 cfg1 k 0 basis2 basis2 False 3 [0, 0]
     = ([[3, 13 / 2], [13 / 2, 14]], [[0, 0], [0, 0]], [0, 0])"
  by (simp add: diff_face_blocks_def Let_def mesh3_pen mesh3_fields basis2_fields zero2
      diff_face_qp_def madd_def vadd_def vsub_def outer_def vsmult_def mat_vec_def dot_def
      dirichlet_def)

lemma asm_m3_init: "initialized asm_m3"
  by (simp add: initialized_def asm_m3_fields)

lemma assemble_m3_pair:
  "triplets (snd (assemble mesh3 0 2 [[e, f], [g, h]] (snd (assemble mesh3 0 0 [[a, b], [c, d]] asm_m3))))
     = [\<lparr>row = 0, col = 0, val = a\<rparr>, \<lparr>row = 0, col = 1, val = b\<rparr>,
        \<lparr>row = 1, col = 0, val = c\<rparr>, \<lparr>row = 1, col = 1, val = d\<rparr>,
        \<lparr>row = 0, col = 2, val = e\<rparr>, \<lparr>row = 0, col = 3, val = f\<rparr>,
        \<lparr>row = 1, col = 2, val = g\<rparr>, \<lparr>row = 1, col = 3, val = h\<rparr>]"
proof -
  let ?s = "snd (assemble mesh3 0 0 [[a, b], [c, d]] asm_m3)"
  have i: "sys_size asm_m3 \<noteq> 0" "basis_size asm_m3 \<noteq> 0" by (simp_all add: asm_m3_fields)
  have s: "sys_size ?s = 4" "basis_size ?s = 2"
    by (simp_all add: assemble_ok(4,5) [OF i] asm_m3_fields)
  then have j: "sys_size ?s \<noteq> 0" "basis_size ?s \<noteq> 0" by simp_all
  show ?thesis
    by (simp add: assemble_ok(2) [OF j] s assemble_m3_cell0 block_triplets_def row_triplets_def
        elem_def upt2 mesh3_fields)
qed

lemma mesh3_diff_face_interior:
  "diff_face mesh3 cfg1 k 0 basis2 0 ([0, 0], asm_m3)
     = (Inr (), [0, 0],
        snd (assemble mesh3 0 2 [[-3, - (25 / 4)], [- (23 / 4), -12]]
               (snd (assemble mesh3 0 0 [[3, 23 / 4], [23 / 4, 11]] asm_m3))))"
proof -
  have i1: "\<And>B. initialized (snd (assemble mesh3 0 0 B asm_m3))"
    by (rule assemble_initialized(2) [OF asm_m3_init])
  show ?thesis
    by (simp add: diff_face_def Let_def mesh3_fields basis2_fields mesh3_interior_blocks
        assemble_case [OF asm_m3_init] assemble_case [OF i1])
qed

section \<open>The claims about the assembler\<close>

text \<open>
  Claim C1, as far as the code supports it. While the assembler is uninitialized
  (\<open>sys_size\<close> or \<open>basis_size\<close> is zero, as after default construction), a call of
  either \<open>assemble\<close> overload fails with the invalid-argument error and leaves the
  assembler, with its triplet list, right-hand side and preconditioner buffer, as it was.
\<close>

theorem assemble_uninitialized_rejected:
  assumes "sys_size a = 0 \<or> basis_size a = 0"
  shows "assemble msh cl_a cl_b block a = (Inl Invalid_argument, a)
       \<and> assemble_rhs msh cl block v a = (Inl Invalid_argument, a)"
  using assms by (auto simp: assemble_def assemble_rhs_def)

theorem assemble_uninitialized_rejected_witness:
  "(sys_size (assembler_default True) = 0 \<or> basis_size (assembler_default True) = 0)
   \<and> assemble mesh1 0 0 [[1]] (assembler_default True) = (Inl Invalid_argument, assembler_default True)
   \<and> assemble_rhs mesh1 0 [[1]] [1] (assembler_default True) = (Inl Invalid_argument, assembler_default True)"
proof -
  have h: "sys_size (assembler_default True) = 0 \<or> basis_size (assembler_default True) = 0"
    by (simp add: assembler_default_def)
  from assemble_uninitialized_rejected [OF h, where msh = mesh1 and cl_a = 0 and cl_b = 0
      and block = "[[1]]" and cl = 0 and v = "[1]"] h
  show ?thesis by simp
qed

text \<open>
  Claim C1 as stated also covers calls made after \<open>finalize()\<close>. The guard of
  \<open>assemble\<close> reads \<open>sys_size\<close> and \<open>basis_size\<close> only, and \<open>finalize\<close> changes neither:
  on the assembler of \<open>mesh1\<close>, \<open>finalize\<close> succeeds, and the call of \<open>assemble\<close> after it
  returns \<open>true\<close> and adds a triplet.
\<close>

theorem assemble_after_finalize_counterexample:
  "fst (finalize asm1) = Inr ()
   \<and> fst (assemble mesh1 0 0 [[1]] (snd (finalize asm1))) = Inr True
   \<and> triplets (snd (assemble mesh1 0 0 [[1]] (snd (finalize asm1)))) \<noteq> triplets (snd (finalize asm1))"
proof -
  have i: "sys_size asm2 \<noteq> 0" "basis_size asm2 \<noteq> 0" by (simp_all add: asm2_fields)
  have "triplets (snd (assemble mesh1 0 0 [[1]] asm2)) \<noteq> triplets asm2"
    by (simp add: assemble_ok(2) [OF i] asm2_fields block_triplets_def row_triplets_def)
  with fin1 assemble_ok(1) [OF i] show ?thesis by (simp add: asm2_def)
qed

text \<open>
  Claim C2 at a concrete run. The assembler is built with the preconditioning flag
  \<open>false\<close>; \<open>initialize\<close> sets \<open>build_pc\<close> to \<open>true\<close> all the same, and assembling the
  block \<open>[[1]]\<close> on the diagonal moves the buffer \<open>pc_temp\<close> from \<open>[0]\<close> to \<open>[1]\<close>.
\<close>

theorem preconditioner_flag_not_read:
  "pc_temp (assembler_new mesh1 0 False False) = [0]
   \<and> pc_temp (snd (assemble mesh1 0 0 [[1]] (assembler_new mesh1 0 False False))) = [1]"
  using asm0_eval asm1_eval by (simp add: asm0_def asm1_def)

text \<open>
  Claim C4. On an initialized assembler, \<open>assemble(msh, cl_a, cl_b, block)\<close> with a
  block of shape \<open>basis_size \<times> basis_size\<close> returns \<open>true\<close> and appends to the triplet
  list exactly one entry for each index pair \<open>(i, j)\<close>, in row-major order, at row
  \<open>offset(cl_a) * basis_size + i\<close> and column \<open>offset(cl_b) * basis_size + j\<close> with the
  value \<open>block(i, j)\<close>. After \<open>initialize\<close> the system size is
  \<open>basis_size * num_cells\<close>, the matrix and the preconditioner are square of that
  size and the right-hand side has that length.
\<close>

theorem assemble_emits_block:
  assumes "sys_size a \<noteq> 0" and "basis_size a \<noteq> 0"
    and "length block = basis_size a" and "\<forall>r \<in> set block. length r = basis_size a"
  shows "fst (assemble msh cl_a cl_b block a) = Inr True
       \<and> triplets (snd (assemble msh cl_a cl_b block a)) = triplets a @
           concat (map (\<lambda>i. map (\<lambda>j. \<lparr>row = offset msh cl_a * basis_size a + i,
                                         col = offset msh cl_b * basis_size a + j,
                                         val = block ! i ! j\<rparr>) [0..<basis_size a]) [0..<basis_size a])
       \<and> sys_size (initialize msh deg bpc a0) = basis_size (initialize msh deg bpc a0) * length (cells msh)
       \<and> nrows (lhs (initialize msh deg bpc a0)) = sys_size (initialize msh deg bpc a0)
       \<and> ncols (lhs (initialize msh deg bpc a0)) = sys_size (initialize msh deg bpc a0)
       \<and> length (rhs (initialize msh deg bpc a0)) = sys_size (initialize msh deg bpc a0)
       \<and> nrows (pc (initialize msh deg bpc a0)) = sys_size (initialize msh deg bpc a0)
       \<and> ncols (pc (initialize msh deg bpc a0)) = sys_size (initialize msh deg bpc a0)"
proof -
  have "block_triplets (basis_size a) (offset msh cl_a * basis_size a) (offset msh cl_b * basis_size a) block
      = concat (map (\<lambda>i. map (\<lambda>j. \<lparr>row = offset msh cl_a * basis_size a + i,
                                         col = offset msh cl_b * basis_size a + j,
                                         val = block ! i ! j\<rparr>) [0..<basis_size a]) [0..<basis_size a])"
    by (simp add: block_triplets_def row_triplets_def [abs_def] elem_def)
  moreover have "length (rhs (initialize msh deg bpc a0)) = sys_size (initialize msh deg bpc a0)"
    by (simp add: initialize_def Let_def resize_vec_def)
  ultimately show ?thesis
    using assemble_ok(1,2) [OF assms(1,2), of msh cl_a cl_b block]
    by (simp add: initialize_def Let_def resize_sparse_def)
qed

theorem assemble_emits_block_witness:
  "sys_size (assembler_new mesh2 1 False False) \<noteq> 0
   \<and> basis_size (assembler_new mesh2 1 False False) \<noteq> 0
   \<and> length [[1, 2], [3, 4 :: real]] = basis_size (assembler_new mesh2 1 False False)
   \<and> map length [[1, 2], [3, 4 :: real]] = [basis_size (assembler_new mesh2 1 False False),
         basis_size (assembler_new mesh2 1 False False)]
   \<and> fst (assemble mesh2 1 0 [[1, 2], [3, 4]] (assembler_new mesh2 1 False False)) = Inr True
   \<and> triplets (snd (assemble mesh2 1 0 [[1, 2], [3, 4]] (assembler_new mesh2 1 False False)))
       = [\<lparr>row = 2, col = 0, val = 1\<rparr>, \<lparr>row = 2, col = 1, val = 2\<rparr>,
          \<lparr>row = 3, col = 0, val = 3\<rparr>, \<lparr>row = 3, col = 1, val = 4\<rparr>]
   \<and> sys_size (initialize mesh2 1 False (assembler_default False)) = 4"
proof -
  have h: "sys_size (assembler_new mesh2 1 False False) \<noteq> 0"
    "basis_size (assembler_new mesh2 1 False False) \<noteq> 0"
    "length [[1, 2], [3, 4 :: real]] = basis_size (assembler_new mesh2 1 False False)"
    "\<forall>r \<in> set [[1, 2], [3, 4 :: real]]. length r = basis_size (assembler_new mesh2 1 False False)"
    by (simp_all add: mesh2_new)
  have m: "offset mesh2 = (\<lambda>c. c)" "cells mesh2 = [0, 1]" by (simp_all add: mesh2_def)
  from assemble_emits_block [OF h, where msh = mesh2 and cl_a = 1 and cl_b = 0
      and deg = 1 and bpc = False and ?a0.0 = "assembler_default False"] h
  show ?thesis by (simp add: mesh2_new m upt2 assembler_new_def [symmetric])
qed

text \<open>
  Claim C5. After any sequence of \<open>assemble\<close> calls on an initialized assembler with
  an empty triplet list, every call succeeds, \<open>finalize\<close> is not rejected, and the entry
  of the finalized matrix at each coordinate is the sum, over the calls, of the values the
  call emits at that coordinate: contributions of separate calls are added.
\<close>

theorem finalize_sums_triplets:
  assumes "sys_size a \<noteq> 0" and "basis_size a \<noteq> 0" and "triplets a = []"
  shows "fst (assemble_all msh calls a) = Inr True
       \<and> fst (finalize (snd (assemble_all msh calls a))) \<noteq> Inl Invalid_argument
       \<and> entry_at (lhs (snd (finalize (snd (assemble_all msh calls a))))) r c
           = (\<Sum>cl\<leftarrow>calls. coord_sum (triplets (snd (assemble_call msh cl a))) r c)"
proof -
  let ?s = "snd (assemble_all msh calls a)"
  note A = assemble_all_ok [OF assms(1,2), of msh calls]
  have i: "sys_size ?s \<noteq> 0" "basis_size ?s \<noteq> 0" using A assms by simp_all
  have "entry_at (lhs (snd (finalize ?s))) r c = coord_sum (triplets ?s) r c"
    by (simp add: finalize_fields(6) [OF i] entry_at_init)
  also have "\<dots> = (\<Sum>cl\<leftarrow>calls. coord_sum (call_triplets msh (basis_size a) cl) r c)"
    using A assms(3) by (simp add: coord_sum_concat comp_def)
  also have "\<dots> = (\<Sum>cl\<leftarrow>calls. coord_sum (triplets (snd (assemble_call msh cl a))) r c)"
    by (simp add: assemble_call_ok(2) [OF assms(1,2)] assms(3))
  finally show ?thesis using A finalize_fields(1) [OF i] by simp
qed

theorem finalize_sums_triplets_witness:
  "sys_size (assembler_new mesh2 2 False False) \<noteq> 0
   \<and> basis_size (assembler_new mesh2 2 False False) \<noteq> 0
   \<and> triplets (assembler_new mesh2 2 False False) = []
   \<and> entry_at (lhs (snd (finalize (snd (assemble_all mesh2
         [Block 0 0 [[1, 2], [3, 4]], Cell 0 [[10, 20], [30, 40]] [5, 6]]
         (assembler_new mesh2 2 False False)))))) 0 0 = 11"
proof -
  have h: "sys_size (assembler_new mesh2 2 False False) \<noteq> 0"
    "basis_size (assembler_new mesh2 2 False False) \<noteq> 0"
    "triplets (assembler_new mesh2 2 False False) = []"
    by (simp_all add: mesh2_new)
  have m: "offset mesh2 = (\<lambda>c. c)" by (simp add: mesh2_def)
  have "(\<Sum>cl\<leftarrow>[Block 0 0 [[1, 2], [3, 4]], Cell 0 [[10, 20], [30, 40]] [5, 6]].
          coord_sum (triplets (snd (assemble_call mesh2 cl (assembler_new mesh2 2 False False)))) 0 0) = 11"
    by (simp add: assemble_call_ok(2) [OF h(1,2)] h(3))
       (simp add: mesh2_new m block_triplets_def row_triplets_def upt2 coord_sum_def elem_def)
  with finalize_sums_triplets [OF h, where msh = mesh2 and r = 0 and c = 0
      and calls = "[Block 0 0 [[1, 2], [3, 4]], Cell 0 [[10, 20], [30, 40]] [5, 6]]"] h
  show ?thesis by simp
qed

text \<open>
  Claim C6. On an initialized assembler that builds the preconditioner, \<open>finalize\<close>
  succeeds when every accumulated diagonal sum has a magnitude above \<open>1e-2\<close>, and then
  the preconditioner is the diagonal matrix of the reciprocals \<open>1 / pc_temp[i]\<close>; when
  some accumulated sum has a magnitude of at most \<open>1e-2\<close>, \<open>finalize\<close> stops at the
  failed assertion.
\<close>

theorem finalize_preconditioner:
  assumes "sys_size a \<noteq> 0" and "basis_size a \<noteq> 0" and "build_pc a" and "pc_triplets a = []"
  shows "if \<forall>i<length (pc_temp a). \<bar>pc_temp a ! i\<bar> > 1 / 100
         then fst (finalize a) = Inr ()
              \<and> (\<forall>i<length (pc_temp a). \<forall>j.
                    entry_at (pc (snd (finalize a))) i j = (if i = j then 1 / pc_temp a ! i else 0))
         else fst (finalize a) = Inl Assertion_failed"
proof -
  let ?n = "length (pc_temp a)"
  let ?a2 = "a\<lparr>lhs := init_from_triplets (lhs a) (triplets a), triplets := []\<rparr>"
  obtain r a3 where L: "finalize_pc_loop [0..<?n] ?a2 = (r, a3)"
    by (cases "finalize_pc_loop [0..<?n] ?a2") auto
  show ?thesis
  proof (cases "\<forall>i<?n. \<bar>pc_temp a ! i\<bar> > 1 / 100")
    case True
    then have "\<forall>i\<in>set [0..<?n]. \<bar>pc_temp ?a2 ! i\<bar> > 1 / 100" by simp
    from pc_loop_ok [OF this] L assms(4)
    have r: "r = Inr ()"
      and t: "pc_triplets a3 = map (\<lambda>i. \<lparr>row = i, col = i, val = 1 / pc_temp a ! i\<rparr>) [0..<?n]"
      by simp_all
    have fin: "finalize a = (Inr (), a3\<lparr>pc := init_from_triplets (pc a3) (pc_triplets a3),
                                 pc_triplets := []\<rparr>)"
      using assms L r by (simp add: finalize_def Let_def)
    have "\<forall>i<?n. \<forall>j. entry_at (pc (snd (finalize a))) i j = (if i = j then 1 / pc_temp a ! i else 0)"
      by (simp add: fin entry_at_init t entry_at_diag_triplets)
    with True fin show ?thesis by simp
  next
    case False
    then have "\<exists>i\<in>set [0..<?n]. \<not> \<bar>pc_temp ?a2 ! i\<bar> > 1 / 100" by auto
    from pc_loop_fail [OF this] L have "r = Inl Assertion_failed" by simp
    with False assms L show ?thesis by (simp add: finalize_def Let_def)
  qed
qed

theorem finalize_preconditioner_witness:
  "sys_size asm1 \<noteq> 0 \<and> basis_size asm1 \<noteq> 0 \<and> build_pc asm1 \<and> pc_triplets asm1 = []
   \<and> pc_temp asm1 = [1]
   \<and> fst (finalize asm1) = Inr () \<and> entry_at (pc (snd (finalize asm1))) 0 0 = 1
   \<and> sys_size asm0 \<noteq> 0 \<and> basis_size asm0 \<noteq> 0 \<and> build_pc asm0 \<and> pc_triplets asm0 = []
   \<and> pc_temp asm0 = [0]
   \<and> fst (finalize asm0) = Inl Assertion_failed"
proof -
  have h1: "sys_size asm1 \<noteq> 0" "basis_size asm1 \<noteq> 0" "build_pc asm1" "pc_triplets asm1 = []"
    by (simp_all add: asm1_eval)
  have h0: "sys_size asm0 \<noteq> 0" "basis_size asm0 \<noteq> 0" "build_pc asm0" "pc_triplets asm0 = []"
    by (simp_all add: asm0_eval)
  have p: "pc_temp asm1 = [1]" "pc_temp asm0 = [0]" by (simp_all add: asm1_eval asm0_eval)
  from finalize_preconditioner [OF h1] finalize_preconditioner [OF h0] h1 h0 p
  show ?thesis by simp
qed

text \<open>
  Claim C8 as stated offers two policies for a second \<open>finalize()\<close>: rejection, or a
  double-accumulated result. The code follows neither. On the assembler of \<open>mesh1\<close> the
  first \<open>finalize\<close> gives the matrix entry \<open>1\<close>; after the same block is assembled again
  the triplet list holds one copy of the entry while the buffer \<open>pc_temp\<close> holds the sum
  of both rounds, the second \<open>finalize\<close> is accepted and gives the entry \<open>1\<close> again, and a
  second \<open>finalize\<close> with no call in between is accepted and gives the empty matrix.
\<close>

theorem second_finalize_counterexample:
  "triplets asm3 = [\<lparr>row = 0, col = 0, val = 1\<rparr>] \<and> pc_temp asm3 = [2]
   \<and> \<not> (fst (finalize asm3) = Inl Invalid_argument
       \<or> entry_at (lhs (snd (finalize asm3))) 0 0 = 2 * entry_at (lhs asm2) 0 0)
   \<and> \<not> (fst (finalize asm2) = Inl Invalid_argument
       \<or> entry_at (lhs (snd (finalize asm2))) 0 0 = 2 * entry_at (lhs asm2) 0 0)"
proof -
  have "entry_at (lhs (snd (finalize asm3))) 0 0 = 1"
    by (simp add: finalize_fields(6) asm3_fields entry_at_init coord_sum_def)
  moreover have "entry_at (lhs (snd (finalize asm2))) 0 0 = 0"
    by (simp add: finalize_fields(6) asm2_fields entry_at_init coord_sum_def)
  moreover have "fst (finalize asm3) \<noteq> Inl Invalid_argument"
    by (simp add: finalize_fields(1) asm3_fields)
  moreover have "fst (finalize asm2) \<noteq> Inl Invalid_argument"
    by (simp add: finalize_fields(1) asm2_fields)
  moreover have "pc_temp asm3 = [2]"
    by (simp add: asm3_def assemble_def assemble_row_def assemble_entry_def Let_def elem_def
        mesh1_def asm2_fields)
  ultimately show ?thesis by (simp add: asm2_lhs asm3_fields)
qed

text \<open>
  Claim C8, as far as the code supports it. \<open>finalize\<close> empties the triplet list, so
  when the same calls are assembled again on the finalized assembler, the second
  \<open>finalize\<close> is not rejected as an invalid state and builds a matrix with the same
  entries as the first, not doubled ones.
\<close>

theorem second_finalize_rebuilds:
  assumes "sys_size a \<noteq> 0" and "basis_size a \<noteq> 0" and "triplets a = []"
  shows "fst (finalize (snd (assemble_all msh calls
            (snd (finalize (snd (assemble_all msh calls a))))))) \<noteq> Inl Invalid_argument
       \<and> entry_at (lhs (snd (finalize (snd (assemble_all msh calls
            (snd (finalize (snd (assemble_all msh calls a))))))))) r c
         = entry_at (lhs (snd (finalize (snd (assemble_all msh calls a))))) r c"
proof -
  let ?s1 = "snd (assemble_all msh calls a)"
  let ?f1 = "snd (finalize ?s1)"
  let ?s2 = "snd (assemble_all msh calls ?f1)"
  note A1 = assemble_all_ok [OF assms(1,2), of msh calls]
  have i1: "sys_size ?s1 \<noteq> 0" "basis_size ?s1 \<noteq> 0" using A1 assms by simp_all
  note F1 = finalize_fields [OF i1]
  have i2: "sys_size ?f1 \<noteq> 0" "basis_size ?f1 \<noteq> 0" using F1 i1 by simp_all
  note A2 = assemble_all_ok [OF i2, of msh calls]
  have i3: "sys_size ?s2 \<noteq> 0" "basis_size ?s2 \<noteq> 0" using A2 i2 by simp_all
  have b: "basis_size ?f1 = basis_size a" using F1(4) A1 by simp
  have "triplets ?s2 = concat (map (call_triplets msh (basis_size a)) calls)"
    using A2 F1(2) b by simp
  moreover have "triplets ?s1 = concat (map (call_triplets msh (basis_size a)) calls)"
    using A1 assms(3) by simp
  ultimately have "entry_at (lhs (snd (finalize ?s2))) r c = entry_at (lhs ?f1) r c"
    by (simp add: finalize_fields(6) [OF i3] F1(6) entry_at_init)
  with finalize_fields(1) [OF i3] show ?thesis by simp
qed

theorem second_finalize_rebuilds_witness:
  "sys_size asm0 \<noteq> 0 \<and> basis_size asm0 \<noteq> 0 \<and> triplets asm0 = []
   \<and> fst (finalize (snd (assemble_all mesh1 [Block 0 0 [[1]]]
            (snd (finalize (snd (assemble_all mesh1 [Block 0 0 [[1]]] asm0))))))) \<noteq> Inl Invalid_argument
   \<and> entry_at (lhs (snd (finalize (snd (assemble_all mesh1 [Block 0 0 [[1]]]
            (snd (finalize (snd (assemble_all mesh1 [Block 0 0 [[1]]] asm0))))))))) 0 0 = 1"
proof -
  have h: "sys_size asm0 \<noteq> 0" "basis_size asm0 \<noteq> 0" "triplets asm0 = []"
    by (simp_all add: asm0_eval)
  have s: "snd (assemble_all mesh1 [Block 0 0 [[1]]] asm0) = asm1"
    by (simp add: asm1_def split: prod.splits sum.splits)
  from second_finalize_rebuilds [OF h, where msh = mesh1 and calls = "[Block 0 0 [[1]]]"
      and r = 0 and c = 0] h
  show ?thesis using asm2_lhs unfolding s asm2_def by simp
qed

section \<open>The claims about the solvers\<close>

text \<open>
  Claim C3 as stated gives the face penalty of the diffusion solver as
  \<open>eta * p^2 / diam(face)\<close>. The solver computes \<open>3*degree*degree*cfg.eta\<close> and divides
  it by the face diameter. On \<open>mesh3\<close> with the default configuration (\<open>eta = 1\<close>, degree
  \<open>1\<close>) the faces have the diameter \<open>1/2\<close>: the coefficient is \<open>6\<close>, not \<open>2\<close>. On the
  interior face of cell \<open>0\<close>, at the one quadrature point of weight \<open>1/2\<close> where the basis
  takes the values \<open>[1, 2]\<close>, the entry \<open>(0, 0)\<close> of the self-block and the entry \<open>(0, 0)\<close>
  of the neighbour block hold the penalty term alone: the face pass assembles \<open>3\<close> and
  \<open>-3\<close> there, where the coefficient \<open>2\<close> would give \<open>1\<close> and \<open>-1\<close>.
\<close>

theorem diffusion_penalty_counterexample:
  "diff_eta_l mesh3 cfg1 0 = 6
   \<and> eta cfg1 * (real_of_int (degree cfg1))\<^sup>2 / face_diameter mesh3 0 = 2
   \<and> diff_eta_l mesh3 cfg1 0 \<noteq> eta cfg1 * (real_of_int (degree cfg1))\<^sup>2 / face_diameter mesh3 0
   \<and> neighbour_via mesh3 0 0 = (2, True)
   \<and> integrate_face mesh3 0 (quad_order (size_t_of_int (degree cfg1)))
        = [\<lparr>qp_point = (2, 0), qp_weight = 1 / 2\<rparr>]
   \<and> basis_eval basis2 (2, 0) = [1, 2]
   \<and> fst (diff_face mesh3 cfg1 (size_t_of_int (degree cfg1)) 0 basis2 0 ([0, 0], asm_m3)) = Inr ()
   \<and> triplets (snd (snd (diff_face mesh3 cfg1 (size_t_of_int (degree cfg1)) 0 basis2 0
                           ([0, 0], asm_m3))))
        = [\<lparr>row = 0, col = 0, val = 3\<rparr>, \<lparr>row = 0, col = 1, val = 23 / 4\<rparr>,
           \<lparr>row = 1, col = 0, val = 23 / 4\<rparr>, \<lparr>row = 1, col = 1, val = 11\<rparr>,
           \<lparr>row = 0, col = 2, val = -3\<rparr>, \<lparr>row = 0, col = 3, val = - (25 / 4)\<rparr>,
           \<lparr>row = 1, col = 2, val = - (23 / 4)\<rparr>, \<lparr>row = 1, col = 3, val = -12\<rparr>]"
  by (simp add: mesh3_pen mesh3_fields cfg1_fields basis2_fields mesh3_diff_face_interior
      assemble_m3_pair)

text \<open>
  Claim C3, as far as the code supports it. For every degree that an \<open>int\<close> holds and
  every face, the penalty coefficient is \<open>pen = 3 * eta * p^2 / diam(face)\<close>, and the pass
  of the diffusion solver over the face assembles the blocks \<open>A\<close> that are accumulated
  over the face quadrature as follows. On an interior face the self-block gains
  \<open>w * pen * phi * trans(phi)\<close> and the two consistency terms with the factor \<open>w/2\<close>, the
  neighbour block gains \<open>- w * pen * phi * trans(psi)\<close> and its two consistency terms,
  and both blocks are assembled. On a boundary face the self-block gains
  \<open>w * pen * phi * trans(phi)\<close> and the consistency terms with the factor \<open>w\<close>, the local
  right-hand side gains \<open>w * pen * dirichlet * phi\<close> and loses
  \<open>w * dirichlet * (grad phi . n)\<close>, and the self-block alone is assembled.
\<close>

theorem diffusion_penalty:
  assumes "- (2 ^ 31) \<le> degree cfg" and "degree cfg < 2 ^ 31"
    and "sys_size assm \<noteq> 0" and "basis_size assm \<noteq> 0"
    and "neighbour_via msh tcl fc = (ncl, has_neighbour)"
    and "make_basis msh ncl deg = Some nbasis" and "bsize tbasis = bsize nbasis"
    and "pen = 3 * eta cfg * (real_of_int (degree cfg))\<^sup>2 / face_diameter msh fc"
    and "A = foldl
           (\<lambda>A fqp.
              let w = qp_weight fqp;
                  phi = basis_eval tbasis (qp_point fqp);
                  g = mat_vec (basis_eval_grads tbasis (qp_point fqp)) (normal msh tcl fc);
                  psi = basis_eval nbasis (qp_point fqp);
                  gn = mat_vec (basis_eval_grads nbasis (qp_point fqp)) (normal msh tcl fc)
              in if has_neighbour
                 then (madd (madd (madd (fst A) (smult (w * pen) (outer phi phi)))
                               (smult (- (w / 2)) (outer phi g)))
                         (smult (- (w / 2)) (outer g phi)),
                       madd (madd (madd (fst (snd A)) (smult (- (w * pen)) (outer phi psi)))
                               (smult (- (w / 2)) (outer phi gn)))
                         (smult (w / 2) (outer g psi)),
                       snd (snd A))
                 else (madd (madd (madd (fst A) (smult (w * pen) (outer phi phi)))
                               (smult (- w) (outer phi g)))
                         (smult (- w) (outer g phi)),
                       fst (snd A),
                       vadd (vsub (snd (snd A)) (vsmult (w * dirichlet (qp_point fqp)) g))
                         (vsmult (w * pen * dirichlet (qp_point fqp)) phi)))
           (zero_mat (bsize tbasis) (bsize tbasis), zero_mat (bsize tbasis) (bsize tbasis), loc_rhs)
           (integrate_face msh fc (quad_order deg))"
  shows "diff_eta_l msh cfg fc = pen
       \<and> diff_face msh cfg deg tcl tbasis fc (loc_rhs, assm) =
           (Inr (), snd (snd A),
            if has_neighbour
            then snd (assemble msh tcl ncl (fst (snd A)) (snd (assemble msh tcl tcl (fst A) assm)))
            else snd (assemble msh tcl tcl (fst A) assm))"
proof -
  have p: "diff_eta_l msh cfg fc = pen"
    by (simp add: diff_eta_l_def diff_eta_value [OF assms(1,2)] assms(8))
  have i: "initialized assm" using assms(3,4) by (simp add: initialized_def)
  have i1: "\<And>B. initialized (snd (assemble msh tcl tcl B assm))"
    by (rule assemble_initialized(2) [OF i])
  have blocks: "diff_face_blocks msh cfg deg tcl tbasis nbasis has_neighbour fc loc_rhs = A"
    unfolding assms(9) diff_face_blocks_def Let_def p diff_face_qp_explicit ..
  show ?thesis
    using assms(5-7) blocks
    by (cases has_neighbour)
       (simp_all add: p diff_face_def Let_def assemble_case [OF i] assemble_case [OF i1])
qed

theorem diffusion_penalty_witness:
  "- (2 ^ 31) \<le> degree cfg1 \<and> degree cfg1 < 2 ^ 31
   \<and> sys_size asm_m3 \<noteq> 0 \<and> basis_size asm_m3 \<noteq> 0
   \<and> neighbour_via mesh3 0 0 = (2, True) \<and> neighbour_via mesh3 0 3 = (0, False)
   \<and> make_basis mesh3 2 (size_t_of_int (degree cfg1)) = Some basis2
   \<and> make_basis mesh3 0 (size_t_of_int (degree cfg1)) = Some basis2
   \<and> (6 :: real) = 3 * eta cfg1 * (real_of_int (degree cfg1))\<^sup>2 / face_diameter mesh3 0
   \<and> diff_eta_l mesh3 cfg1 0 = 6 \<and> diff_eta_l mesh3 cfg1 3 = 6
   \<and> diff_face mesh3 cfg1 (size_t_of_int (degree cfg1)) 0 basis2 0 ([0, 0], asm_m3)
        = (Inr (), [0, 0],
           snd (assemble mesh3 0 2 [[-3, - (25 / 4)], [- (23 / 4), -12]]
                  (snd (assemble mesh3 0 0 [[3, 23 / 4], [23 / 4, 11]] asm_m3))))
   \<and> diff_face mesh3 cfg1 (size_t_of_int (degree cfg1)) 0 basis2 3 ([0, 0], asm_m3)
        = (Inr (), [0, 0], snd (assemble mesh3 0 0 [[3, 13 / 2], [13 / 2, 14]] asm_m3))"
proof -
  let ?d = "size_t_of_int (degree cfg1)"
  have r: "- (2 ^ 31) \<le> degree cfg1" "degree cfg1 < 2 ^ 31" by (simp_all add: cfg1_fields)
  have i: "sys_size asm_m3 \<noteq> 0" "basis_size asm_m3 \<noteq> 0" by (simp_all add: asm_m3_fields)
  have nv: "neighbour_via mesh3 0 0 = (2, True)" "neighbour_via mesh3 0 3 = (0, False)"
    by (simp_all add: mesh3_fields)
  have nb: "make_basis mesh3 2 ?d = Some basis2" "make_basis mesh3 0 ?d = Some basis2"
    by (simp_all add: mesh3_fields)
  have p: "(6 :: real) = 3 * eta cfg1 * (real_of_int (degree cfg1))\<^sup>2 / face_diameter mesh3 0"
    "(6 :: real) = 3 * eta cfg1 * (real_of_int (degree cfg1))\<^sup>2 / face_diameter mesh3 3"
    by (simp_all add: cfg1_fields mesh3_fields)
  note T0 = diffusion_penalty [OF r i nv(1) nb(1) refl p(1) refl, where loc_rhs = "[0, 0]"]
  note T3 = diffusion_penalty [OF r i nv(2) nb(2) refl p(2) refl, where loc_rhs = "[0, 0]"]
  have e0: "diff_eta_l mesh3 cfg1 0 = 6"
    and f0: "diff_face mesh3 cfg1 ?d 0 basis2 0 ([0, 0], asm_m3)
        = (Inr (), [0, 0],
           snd (assemble mesh3 0 2 [[-3, - (25 / 4)], [- (23 / 4), -12]]
                  (snd (assemble mesh3 0 0 [[3, 23 / 4], [23 / 4, 11]] asm_m3))))"
    using T0
    by (simp_all add: Let_def mesh3_fields basis2_fields zero2 madd_def vadd_def vsub_def
        outer_def smult_def vsmult_def mat_vec_def dot_def dirichlet_def)
  have e3: "diff_eta_l mesh3 cfg1 3 = 6"
    and f3: "diff_face mesh3 cfg1 ?d 0 basis2 3 ([0, 0], asm_m3)
        = (Inr (), [0, 0], snd (assemble mesh3 0 0 [[3, 13 / 2], [13 / 2, 14]] asm_m3))"
    using T3
    by (simp_all add: Let_def mesh3_fields basis2_fields zero2 madd_def vadd_def vsub_def
        outer_def smult_def vsmult_def mat_vec_def dot_def dirichlet_def)
  show ?thesis
    using r i nv nb p(1) e0 e3 f0 f3 by simp
qed

text \<open>
  Claim C7. In both advection-reaction solvers, the pass over a boundary face (the
  neighbour lookup reports no neighbour) assembles one block, the self-block, which is
  the sum of \<open>weight * |beta . n| * phi * trans(phi)\<close> over the face quadrature points
  with \<open>beta . n < 0\<close>; the points with \<open>beta . n \<ge> 0\<close> add nothing and no neighbour block
  is assembled. On a boundary face with pure outflow the pass appends zero-valued
  triplets and changes nothing else in the assembler. On a mesh of one cell all of whose
  faces are boundary faces with pure outflow, the solver therefore hands to \<open>finalize\<close>
  the assembler that holds the volume block of the cell, its right-hand side and, from
  the faces, zero-valued triplets only.
\<close>

theorem boundary_inflow_only:
  "(sys_size assm \<noteq> 0 \<and> basis_size assm \<noteq> 0
      \<and> neighbour_via msh tcl fc = (ncl, False)
      \<and> make_basis msh ncl deg = Some nbasis \<and> bsize tbasis = bsize nbasis \<longrightarrow>
      ar_face msh cfg deg tcl tbasis fc assm =
        (Inr (), snd (assemble msh tcl tcl
           (foldl (\<lambda>Att fqp.
                     if dot (params_beta (qp_point fqp)) (normal msh tcl fc) < 0
                     then madd Att
                            (smult (qp_weight fqp * \<bar>dot (params_beta (qp_point fqp)) (normal msh tcl fc)\<bar>)
                               (outer (basis_eval tbasis (qp_point fqp)) (basis_eval tbasis (qp_point fqp))))
                     else Att)
              (zero_mat (bsize tbasis) (bsize tbasis)) (integrate_face msh fc (quad_order deg))) assm))
      \<and> ar1_face msh deg tcl tbasis fc assm =
        (Inr (), snd (assemble msh tcl tcl
           (foldl (\<lambda>Att fqp.
                     if dot (params_beta (qp_point fqp)) (normal msh tcl fc) < 0
                     then madd Att
                            (smult (qp_weight fqp * \<bar>dot (params_beta (qp_point fqp)) (normal msh tcl fc)\<bar>)
                               (outer (basis_eval tbasis (qp_point fqp)) (basis_eval tbasis (qp_point fqp))))
                     else Att)
              (zero_mat (bsize tbasis) (bsize tbasis)) (integrate_face msh fc (quad_order deg))) assm)))
   \<and> (sys_size assm \<noteq> 0 \<and> basis_size assm \<noteq> 0 \<and> bsize tbasis = basis_size assm
      \<and> outflow_boundary_face msh deg tcl tbasis fc \<longrightarrow>
      ar_face msh cfg deg tcl tbasis fc assm =
        (Inr (), assm\<lparr>triplets := triplets assm
           @ zero_block_triplets (basis_size assm) (offset msh tcl * basis_size assm)\<rparr>)
      \<and> ar1_face msh deg tcl tbasis fc assm =
        (Inr (), assm\<lparr>triplets := triplets assm
           @ zero_block_triplets (basis_size assm) (offset msh tcl * basis_size assm)\<rparr>))
   \<and> (cells msh = [tcl]
      \<and> make_basis msh tcl (size_t_of_int (degree cfg)) = Some tbasis
      \<and> bsize tbasis = scalar_basis_size msh (size_t_of_int (degree cfg)) 2 \<and> bsize tbasis \<noteq> 0
      \<and> list_all (outflow_boundary_face msh (size_t_of_int (degree cfg)) tcl tbasis) (faces msh tcl) \<longrightarrow>
      ar_assembly msh cfg b =
        finalize (snd (assemble_rhs msh tcl
          (fst (foldl (ar_volume_qp tbasis)
                 (zero_mat (bsize tbasis) (bsize tbasis), zero_vec (bsize tbasis))
                 (integrate_cell msh tcl (quad_order (size_t_of_int (degree cfg))))))
          (snd (foldl (ar_volume_qp tbasis)
                 (zero_mat (bsize tbasis) (bsize tbasis), zero_vec (bsize tbasis))
                 (integrate_cell msh tcl (quad_order (size_t_of_int (degree cfg))))))
          ((assembler_new msh (size_t_of_int (degree cfg)) (use_preconditioner cfg) b)
             \<lparr>triplets := concat (map (\<lambda>fc. zero_block_triplets (bsize tbasis)
                                               (offset msh tcl * bsize tbasis)) (faces msh tcl))\<rparr>)))
      \<and> ar1_assembly msh cfg b =
        finalize (snd (assemble_rhs msh tcl
          (fst (foldl (ar_volume_qp tbasis)
                 (zero_mat (bsize tbasis) (bsize tbasis), zero_vec (bsize tbasis))
                 (integrate_cell msh tcl (quad_order (size_t_of_int (degree cfg))))))
          (snd (foldl (ar_volume_qp tbasis)
                 (zero_mat (bsize tbasis) (bsize tbasis), zero_vec (bsize tbasis))
                 (integrate_cell msh tcl (quad_order (size_t_of_int (degree cfg))))))
          ((assembler_new msh (size_t_of_int (degree cfg)) (use_preconditioner cfg) b)
             \<lparr>triplets := concat (map (\<lambda>fc. zero_block_triplets (bsize tbasis)
                                               (offset msh tcl * bsize tbasis)) (faces msh tcl))\<rparr>))))"
proof (intro conjI impI)
  assume h: "sys_size assm \<noteq> 0 \<and> basis_size assm \<noteq> 0
      \<and> neighbour_via msh tcl fc = (ncl, False)
      \<and> make_basis msh ncl deg = Some nbasis \<and> bsize tbasis = bsize nbasis"
  then have i: "initialized assm" by (simp add: initialized_def)
  from h have nv: "neighbour_via msh tcl fc = (ncl, False)"
    and nb: "make_basis msh ncl deg = Some nbasis" "bsize tbasis = bsize nbasis" by simp_all
  show "ar_face msh cfg deg tcl tbasis fc assm =
        (Inr (), snd (assemble msh tcl tcl
           (foldl (\<lambda>Att fqp.
                     if dot (params_beta (qp_point fqp)) (normal msh tcl fc) < 0
                     then madd Att
                            (smult (qp_weight fqp * \<bar>dot (params_beta (qp_point fqp)) (normal msh tcl fc)\<bar>)
                               (outer (basis_eval tbasis (qp_point fqp)) (basis_eval tbasis (qp_point fqp))))
                     else Att)
              (zero_mat (bsize tbasis) (bsize tbasis)) (integrate_face msh fc (quad_order deg))) assm))"
    by (rule ar_face_boundary [OF i nv nb])
  show "ar1_face msh deg tcl tbasis fc assm =
        (Inr (), snd (assemble msh tcl tcl
           (foldl (\<lambda>Att fqp.
                     if dot (params_beta (qp_point fqp)) (normal msh tcl fc) < 0
                     then madd Att
                            (smult (qp_weight fqp * \<bar>dot (params_beta (qp_point fqp)) (normal msh tcl fc)\<bar>)
                               (outer (basis_eval tbasis (qp_point fqp)) (basis_eval tbasis (qp_point fqp))))
                     else Att)
              (zero_mat (bsize tbasis) (bsize tbasis)) (integrate_face msh fc (quad_order deg))) assm))"
    by (rule ar1_face_boundary [OF i nv nb])
next
  assume h: "sys_size assm \<noteq> 0 \<and> basis_size assm \<noteq> 0 \<and> bsize tbasis = basis_size assm
      \<and> outflow_boundary_face msh deg tcl tbasis fc"
  then have i: "initialized assm" by (simp add: initialized_def)
  from h have b: "bsize tbasis = basis_size assm"
    and f: "outflow_boundary_face msh deg tcl tbasis fc" by simp_all
  show "ar_face msh cfg deg tcl tbasis fc assm =
        (Inr (), assm\<lparr>triplets := triplets assm
           @ zero_block_triplets (basis_size assm) (offset msh tcl * basis_size assm)\<rparr>)"
    by (rule ar_face_outflow(1) [OF i b f])
  show "ar1_face msh deg tcl tbasis fc assm =
        (Inr (), assm\<lparr>triplets := triplets assm
           @ zero_block_triplets (basis_size assm) (offset msh tcl * basis_size assm)\<rparr>)"
    by (rule ar_face_outflow(2) [OF i b f])
next
  let ?d = "size_t_of_int (degree cfg)"
  let ?a = "assembler_new msh ?d (use_preconditioner cfg) b"
  assume h: "cells msh = [tcl]
      \<and> make_basis msh tcl ?d = Some tbasis
      \<and> bsize tbasis = scalar_basis_size msh ?d 2 \<and> bsize tbasis \<noteq> 0
      \<and> list_all (outflow_boundary_face msh ?d tcl tbasis) (faces msh tcl)"
  then have c: "cells msh = [tcl]" and tb: "make_basis msh tcl ?d = Some tbasis"
    and bs: "bsize tbasis = scalar_basis_size msh ?d 2" "bsize tbasis \<noteq> 0"
    and fs: "list_all (outflow_boundary_face msh ?d tcl tbasis) (faces msh tcl)" by simp_all
  have a: "basis_size ?a = bsize tbasis" "sys_size ?a = bsize tbasis" "triplets ?a = []"
    using bs c by (simp_all add: assembler_new_def initialize_def Let_def assembler_default_def)
  have i: "initialized ?a" using a bs by (simp add: initialized_def)
  have b': "bsize tbasis = basis_size ?a" using a by simp
  note C1 = ar_cell_outflow(1) [OF i tb b' fs, of cfg]
  note C2 = ar_cell_outflow(2) [OF i tb b' fs]
  show "ar_assembly msh cfg b =
        finalize (snd (assemble_rhs msh tcl
          (fst (foldl (ar_volume_qp tbasis)
                 (zero_mat (bsize tbasis) (bsize tbasis), zero_vec (bsize tbasis))
                 (integrate_cell msh tcl (quad_order ?d))))
          (snd (foldl (ar_volume_qp tbasis)
                 (zero_mat (bsize tbasis) (bsize tbasis), zero_vec (bsize tbasis))
                 (integrate_cell msh tcl (quad_order ?d))))
          (?a\<lparr>triplets := concat (map (\<lambda>fc. zero_block_triplets (bsize tbasis)
                                               (offset msh tcl * bsize tbasis)) (faces msh tcl))\<rparr>)))"
    using C1 by (simp add: ar_assembly_def Let_def c a)
  show "ar1_assembly msh cfg b =
        finalize (snd (assemble_rhs msh tcl
          (fst (foldl (ar_volume_qp tbasis)
                 (zero_mat (bsize tbasis) (bsize tbasis), zero_vec (bsize tbasis))
                 (integrate_cell msh tcl (quad_order ?d))))
          (snd (foldl (ar_volume_qp tbasis)
                 (zero_mat (bsize tbasis) (bsize tbasis), zero_vec (bsize tbasis))
                 (integrate_cell msh tcl (quad_order ?d))))
          (?a\<lparr>triplets := concat (map (\<lambda>fc. zero_block_triplets (bsize tbasis)
                                               (offset msh tcl * bsize tbasis)) (faces msh tcl))\<rparr>)))"
    using C2 by (simp add: ar1_assembly_def Let_def c a)
qed

theorem boundary_inflow_only_witness:
  "sys_size asm_m3 \<noteq> 0 \<and> basis_size asm_m3 \<noteq> 0
   \<and> neighbour_via mesh3 0 3 = (0, False)
   \<and> make_basis mesh3 0 (size_t_of_int (degree cfg1)) = Some basis2
   \<and> normal mesh3 0 3 = [-1, 0]
   \<and> fst (ar_face mesh3 cfg1 (size_t_of_int (degree cfg1)) 0 basis2 3 asm_m3) = Inr ()
   \<and> triplets (snd (ar_face mesh3 cfg1 (size_t_of_int (degree cfg1)) 0 basis2 3 asm_m3))
        = [\<lparr>row = 0, col = 0, val = 1 / 2\<rparr>, \<lparr>row = 0, col = 1, val = 1\<rparr>,
           \<lparr>row = 1, col = 0, val = 1\<rparr>, \<lparr>row = 1, col = 1, val = 2\<rparr>]
   \<and> triplets (snd (ar1_face mesh3 (size_t_of_int (degree cfg1)) 0 basis2 3 asm_m3))
        = [\<lparr>row = 0, col = 0, val = 1 / 2\<rparr>, \<lparr>row = 0, col = 1, val = 1\<rparr>,
           \<lparr>row = 1, col = 0, val = 1\<rparr>, \<lparr>row = 1, col = 1, val = 2\<rparr>]
   \<and> bsize basis2 = basis_size asm_m3
   \<and> outflow_boundary_face mesh3 (size_t_of_int (degree cfg1)) 2 basis2 5
   \<and> normal mesh3 2 5 = [1, 0]
   \<and> triplets (snd (ar_face mesh3 cfg1 (size_t_of_int (degree cfg1)) 2 basis2 5 asm_m3))
        = [\<lparr>row = 2, col = 2, val = 0\<rparr>, \<lparr>row = 2, col = 3, val = 0\<rparr>,
           \<lparr>row = 3, col = 2, val = 0\<rparr>, \<lparr>row = 3, col = 3, val = 0\<rparr>]
   \<and> triplets (snd (ar1_face mesh3 (size_t_of_int (degree cfg1)) 2 basis2 5 asm_m3))
        = [\<lparr>row = 2, col = 2, val = 0\<rparr>, \<lparr>row = 2, col = 3, val = 0\<rparr>,
           \<lparr>row = 3, col = 2, val = 0\<rparr>, \<lparr>row = 3, col = 3, val = 0\<rparr>]
   \<and> cells mesh1 = [0]
   \<and> make_basis mesh1 0 (size_t_of_int (degree cfg1)) = Some basis1
   \<and> bsize basis1 = scalar_basis_size mesh1 (size_t_of_int (degree cfg1)) 2
   \<and> bsize basis1 \<noteq> 0
   \<and> list_all (outflow_boundary_face mesh1 (size_t_of_int (degree cfg1)) 0 basis1) (faces mesh1 0)
   \<and> fst (ar_assembly mesh1 cfg1 False) = Inr ()
   \<and> entry_at (lhs (snd (ar_assembly mesh1 cfg1 False))) 0 0 = 1
   \<and> rhs (snd (ar_assembly mesh1 cfg1 False)) = [pi]
   \<and> pc_temp (snd (ar_assembly mesh1 cfg1 False)) = [1]
   \<and> ar1_assembly mesh1 cfg1 False = ar_assembly mesh1 cfg1 False"
proof -
  let ?d = "size_t_of_int (degree cfg1)"
  have bs2: "bsize basis2 = 2" by (simp add: basis2_def)
  have bs1: "bsize basis1 = 1" by (simp add: basis1_def)
  have m1: "cells mesh1 = [0]" "make_basis mesh1 0 ?d = Some basis1"
    "scalar_basis_size mesh1 ?d 2 = 1"
    by (simp_all add: mesh1_def)
  have h1: "sys_size asm_m3 \<noteq> 0 \<and> basis_size asm_m3 \<noteq> 0
      \<and> neighbour_via mesh3 0 3 = (0, False)
      \<and> make_basis mesh3 0 ?d = Some basis2 \<and> bsize basis2 = bsize basis2"
    by (simp add: asm_m3_fields mesh3_def)
  have n: "normal mesh3 0 3 = [-1, 0]" "normal mesh3 2 5 = [1, 0]" by (simp_all add: mesh3_def)
  have h2: "sys_size asm_m3 \<noteq> 0 \<and> basis_size asm_m3 \<noteq> 0 \<and> bsize basis2 = basis_size asm_m3
      \<and> outflow_boundary_face mesh3 ?d 2 basis2 5"
    using mesh3_outflow [of ?d] bs2 by (simp add: asm_m3_fields)
  have h3: "cells mesh1 = [0]
      \<and> make_basis mesh1 0 ?d = Some basis1
      \<and> bsize basis1 = scalar_basis_size mesh1 ?d 2 \<and> bsize basis1 \<noteq> 0
      \<and> list_all (outflow_boundary_face mesh1 ?d 0 basis1) (faces mesh1 0)"
    using mesh1_outflow [of ?d] by (simp add: m1 bs1)
  note T1 = boundary_inflow_only [where assm = asm_m3 and msh = mesh3 and tcl = 0 and fc = 3
      and ncl = 0 and deg = ?d and nbasis = basis2 and tbasis = basis2 and cfg = cfg1,
      THEN conjunct1, rule_format, OF h1]
  note T2 = boundary_inflow_only [where assm = asm_m3 and msh = mesh3 and tcl = 2 and fc = 5
      and deg = ?d and tbasis = basis2 and cfg = cfg1,
      THEN conjunct2, THEN conjunct1, rule_format, OF h2]
  note T3 = boundary_inflow_only [where msh = mesh1 and tcl = 0 and tbasis = basis1
      and cfg = cfg1 and b = False,
      THEN conjunct2, THEN conjunct2, rule_format, OF h3]
  have in1: "fst (ar_face mesh3 cfg1 ?d 0 basis2 3 asm_m3) = Inr ()"
    "triplets (snd (ar_face mesh3 cfg1 ?d 0 basis2 3 asm_m3))
        = [\<lparr>row = 0, col = 0, val = 1 / 2\<rparr>, \<lparr>row = 0, col = 1, val = 1\<rparr>,
           \<lparr>row = 1, col = 0, val = 1\<rparr>, \<lparr>row = 1, col = 1, val = 2\<rparr>]"
    "triplets (snd (ar1_face mesh3 ?d 0 basis2 3 asm_m3))
        = [\<lparr>row = 0, col = 0, val = 1 / 2\<rparr>, \<lparr>row = 0, col = 1, val = 1\<rparr>,
           \<lparr>row = 1, col = 0, val = 1\<rparr>, \<lparr>row = 1, col = 1, val = 2\<rparr>]"
    using T1 by (simp_all add: mesh3_inflow_block assemble_m3_cell0)
  have z: "zero_block_triplets 2 2
        = [\<lparr>row = 2, col = 2, val = 0\<rparr>, \<lparr>row = 2, col = 3, val = 0\<rparr>,
           \<lparr>row = 3, col = 2, val = 0\<rparr>, \<lparr>row = 3, col = 3, val = 0\<rparr>]"
    by (simp add: zero_block_triplets_def upt2)
  have o: "offset mesh3 2 * 2 = 2" by (simp add: mesh3_def)
  have out: "triplets (snd (ar_face mesh3 cfg1 ?d 2 basis2 5 asm_m3))
        = [\<lparr>row = 2, col = 2, val = 0\<rparr>, \<lparr>row = 2, col = 3, val = 0\<rparr>,
           \<lparr>row = 3, col = 2, val = 0\<rparr>, \<lparr>row = 3, col = 3, val = 0\<rparr>]"
    "triplets (snd (ar1_face mesh3 ?d 2 basis2 5 asm_m3))
        = [\<lparr>row = 2, col = 2, val = 0\<rparr>, \<lparr>row = 2, col = 3, val = 0\<rparr>,
           \<lparr>row = 3, col = 2, val = 0\<rparr>, \<lparr>row = 3, col = 3, val = 0\<rparr>]"
    using T2 by (simp_all add: asm_m3_fields o z)
  have zb: "zero_block_triplets (bsize basis1) (offset mesh1 0 * bsize basis1)
        = [\<lparr>row = 0, col = 0, val = 0\<rparr>]"
    by (simp add: zero_block_triplets_def basis1_def mesh1_def)
  have f1: "faces mesh1 0 = [0]" by (simp add: mesh1_def)
  have A: "ar_assembly mesh1 cfg1 False = (Inr (), \<lparr>triplets = [], pc_triplets = [], sys_size = 1, basis_size = 1,
      build_pc = True,
      lhs = \<lparr>nrows = 1, ncols = 1, entries = [(0, 0) \<mapsto> 1]\<rparr>, rhs = [pi],
      pc = \<lparr>nrows = 1, ncols = 1, entries = [(0, 0) \<mapsto> 1]\<rparr>, pc_temp = [1]\<rparr>)"
    "ar1_assembly mesh1 cfg1 False = ar_assembly mesh1 cfg1 False"
    using T3 by (simp_all add: mesh1_volume f1 zb mesh1_final)
  have e: "entry_at (lhs (snd (ar_assembly mesh1 cfg1 False))) 0 0 = 1"
    by (simp add: A(1) entry_at_def)
  show ?thesis
    using h1 h2 h3 n in1 out A e by simp
qed

text \<open>
  Claim C9. When the basis of every cell can be built and \<open>solve_LU\<close> solves the
  system of every cell, then on every cell the pass returns normally, there is a solution
  \<open>proj\<close> of \<open>M * proj = a\<close> for the mass matrix \<open>M\<close> and the load vector \<open>a\<close> of the cell
  such that the mass-matrix accumulator gains exactly
  \<open>trans(proj - loc_sol) * M * (proj - loc_sol)\<close>, and at the end of the pass both
  accumulators are the sums of the gains over the cells, with no square root taken.
\<close>

theorem error_pass_mass_norm:
  assumes "\<forall>cl \<in> set (cells msh). make_basis msh cl deg \<noteq> None
             \<and> lu_solved ref_sol solve_LU msh deg cl"
  shows "(\<forall>cl \<in> set (cells msh). \<forall>st. \<exists>proj.
            mat_vec (cell_mass msh deg cl) proj = cell_load ref_sol msh deg cl
          \<and> err_cell ref_sol solve_LU msh deg sol cl st =
              (Inr (), st\<lparr>L2_errsq_qp := L2_errsq_qp st + cell_qp_error ref_sol msh deg sol cl,
                          L2_errsq_mm := L2_errsq_mm st
                            + dot (vsub proj (cell_sol msh deg sol cl))
                                (mat_vec (cell_mass msh deg cl)
                                   (vsub proj (cell_sol msh deg sol cl)))\<rparr>))
       \<and> fst (error_pass ref_sol solve_LU msh deg sol status) = Inr ()
       \<and> L2_errsq_mm (snd (error_pass ref_sol solve_LU msh deg sol status))
           = (\<Sum>cl\<leftarrow>cells msh. cell_mm_error ref_sol solve_LU msh deg sol cl)
       \<and> L2_errsq_qp (snd (error_pass ref_sol solve_LU msh deg sol status))
           = (\<Sum>cl\<leftarrow>cells msh. cell_qp_error ref_sol msh deg sol cl)"
proof -
  have cells_ok: "\<forall>cl \<in> set (cells msh). make_basis msh cl deg \<noteq> None" using assms by simp
  have per_cell: "\<exists>proj.
            mat_vec (cell_mass msh deg cl) proj = cell_load ref_sol msh deg cl
          \<and> err_cell ref_sol solve_LU msh deg sol cl st =
              (Inr (), st\<lparr>L2_errsq_qp := L2_errsq_qp st + cell_qp_error ref_sol msh deg sol cl,
                          L2_errsq_mm := L2_errsq_mm st
                            + dot (vsub proj (cell_sol msh deg sol cl))
                                (mat_vec (cell_mass msh deg cl)
                                   (vsub proj (cell_sol msh deg sol cl)))\<rparr>)"
    if "cl \<in> set (cells msh)" for cl st
  proof -
    from that assms obtain b where b: "make_basis msh cl deg = Some b"
      and s: "lu_solved ref_sol solve_LU msh deg cl" by auto
    let ?proj = "solve_LU (cell_mass msh deg cl) (cell_load ref_sol msh deg cl)"
    have "mat_vec (cell_mass msh deg cl) ?proj = cell_load ref_sol msh deg cl"
      using s by (simp add: lu_solved_def)
    moreover have "err_cell ref_sol solve_LU msh deg sol cl st =
              (Inr (), st\<lparr>L2_errsq_qp := L2_errsq_qp st + cell_qp_error ref_sol msh deg sol cl,
                          L2_errsq_mm := L2_errsq_mm st
                            + dot (vsub ?proj (cell_sol msh deg sol cl))
                                (mat_vec (cell_mass msh deg cl)
                                   (vsub ?proj (cell_sol msh deg sol cl)))\<rparr>)"
      by (simp add: err_cell_eq [OF b] cell_mm_error_def mass_form_def)
    ultimately show ?thesis by blast
  qed
  have pass: "error_pass ref_sol solve_LU msh deg sol status =
     (Inr (), status\<lparr>L2_errsq_qp := (\<Sum>cl\<leftarrow>cells msh. cell_qp_error ref_sol msh deg sol cl),
                     L2_errsq_mm := (\<Sum>cl\<leftarrow>cells msh. cell_mm_error ref_sol solve_LU msh deg sol cl)\<rparr>)"
    by (simp add: error_pass_def err_cells_fold [OF cells_ok])
  show ?thesis using per_cell by (simp add: pass)
qed

theorem error_pass_mass_norm_witness:
  "cells mesh1 = [0] \<and> make_basis mesh1 0 0 \<noteq> None \<and> lu_solved adv_ref_sol solve1 mesh1 0 0
   \<and> fst (error_pass adv_ref_sol solve1 mesh1 0 [2] status0) = Inr ()
   \<and> L2_errsq_mm (snd (error_pass adv_ref_sol solve1 mesh1 0 [2] status0)) = 4
   \<and> L2_errsq_qp (snd (error_pass adv_ref_sol solve1 mesh1 0 [2] status0)) = 4"
proof -
  have c: "cells mesh1 = [0]" "make_basis mesh1 0 0 \<noteq> None" by (simp_all add: mesh1_def)
  have l: "lu_solved adv_ref_sol solve1 mesh1 0 0"
    by (simp add: lu_solved_def mesh1_cell_values solve1_def mat_vec_def dot_def)
  have h: "\<forall>cl \<in> set (cells mesh1). make_basis mesh1 cl 0 \<noteq> None
             \<and> lu_solved adv_ref_sol solve1 mesh1 0 cl"
    using c l by simp
  have mm: "cell_mm_error adv_ref_sol solve1 mesh1 0 [2] 0 = 4"
    by (simp add: cell_mm_error_def mesh1_cell_values solve1_def mass_form_def vsub_def
        mat_vec_def dot_def)
  from error_pass_mass_norm [OF h, where sol = "[2]" and status = status0]
  show ?thesis using c l by (simp add: mm mesh1_cell_values)
qed

text \<open>
  Claim C10. In the three solvers, with an initialized assembler and a cell whose own
  basis can be built, the assembly of the cell returns normally exactly when, for every
  face of the cell, whatever the existence flag says, the basis of the handle that
  \<open>neighbour_via\<close> returns can be built and has the size of the basis of the cell; and a
  face whose returned handle has no basis stops the assembly before the flag is read.
\<close>

theorem neighbour_basis_required:
  assumes "sys_size assm \<noteq> 0" and "basis_size assm \<noteq> 0"
    and "make_basis msh tcl deg = Some tbasis"
  shows "(fst (ar_cell msh cfg deg tcl assm) = Inr ())
           = (\<forall>fc \<in> set (faces msh tcl). \<exists>nbasis.
                make_basis msh (fst (neighbour_via msh tcl fc)) deg = Some nbasis
                \<and> bsize tbasis = bsize nbasis)
       \<and> (fst (ar1_cell msh deg tcl assm) = Inr ())
           = (\<forall>fc \<in> set (faces msh tcl). \<exists>nbasis.
                make_basis msh (fst (neighbour_via msh tcl fc)) deg = Some nbasis
                \<and> bsize tbasis = bsize nbasis)
       \<and> (fst (diff_cell msh cfg deg tcl assm) = Inr ())
           = (\<forall>fc \<in> set (faces msh tcl). \<exists>nbasis.
                make_basis msh (fst (neighbour_via msh tcl fc)) deg = Some nbasis
                \<and> bsize tbasis = bsize nbasis)
       \<and> (\<forall>fc. make_basis msh (fst (neighbour_via msh tcl fc)) deg = None \<longrightarrow>
              fst (ar_face msh cfg deg tcl tbasis fc assm) = Inl Basis_undefined
            \<and> fst (ar1_face msh deg tcl tbasis fc assm) = Inl Basis_undefined
            \<and> fst (diff_face msh cfg deg tcl tbasis fc (loc_rhs, assm)) = Inl Basis_undefined)"
proof -
  have i: "initialized assm" using assms(1,2) by (simp add: initialized_def)
  have "\<forall>fc. make_basis msh (fst (neighbour_via msh tcl fc)) deg = None \<longrightarrow>
              fst (ar_face msh cfg deg tcl tbasis fc assm) = Inl Basis_undefined
            \<and> fst (ar1_face msh deg tcl tbasis fc assm) = Inl Basis_undefined
            \<and> fst (diff_face msh cfg deg tcl tbasis fc (loc_rhs, assm)) = Inl Basis_undefined"
    by (simp add: ar_face_def ar1_face_def diff_face_def Let_def)
  then show ?thesis
    using ar_cell_iff [OF i assms(3), of cfg] ar1_cell_iff [OF i assms(3)]
      diff_cell_iff [OF i assms(3), of cfg]
    by (simp only: neighbour_basis_ok_iff)
qed

theorem neighbour_basis_required_witness:
  "sys_size asm0 \<noteq> 0 \<and> basis_size asm0 \<noteq> 0
   \<and> make_basis mesh1 0 0 = Some basis1 \<and> faces mesh1 0 = [0]
   \<and> neighbour_via mesh1 0 0 = (0, False)
   \<and> fst (ar_cell mesh1 cfg1 0 0 asm0) = Inr ()
   \<and> fst (ar1_cell mesh1 0 0 asm0) = Inr ()
   \<and> fst (diff_cell mesh1 cfg1 0 0 asm0) = Inr ()
   \<and> make_basis mesh1b 0 0 = Some basis1 \<and> faces mesh1b 0 = [0]
   \<and> neighbour_via mesh1b 0 0 = (2, False) \<and> make_basis mesh1b 2 0 = None
   \<and> fst (ar_cell mesh1b cfg1 0 0 asm0) \<noteq> Inr ()
   \<and> fst (ar1_cell mesh1b 0 0 asm0) \<noteq> Inr ()
   \<and> fst (diff_cell mesh1b cfg1 0 0 asm0) \<noteq> Inr ()
   \<and> fst (ar_face mesh1b cfg1 0 0 basis1 0 asm0) = Inl Basis_undefined
   \<and> fst (ar1_face mesh1b 0 0 basis1 0 asm0) = Inl Basis_undefined
   \<and> fst (diff_face mesh1b cfg1 0 0 basis1 0 ([0], asm0)) = Inl Basis_undefined"
proof -
  have h: "sys_size asm0 \<noteq> 0" "basis_size asm0 \<noteq> 0" by (simp_all add: asm0_eval)
  have m: "make_basis mesh1 0 0 = Some basis1" "faces mesh1 0 = [0]"
    "neighbour_via mesh1 0 0 = (0, False)"
    by (simp_all add: mesh1_def)
  have mb: "make_basis mesh1b 0 0 = Some basis1" "faces mesh1b 0 = [0]"
    "neighbour_via mesh1b 0 0 = (2, False)" "make_basis mesh1b 2 0 = None"
    by (simp_all add: mesh1b_def mesh1_def)
  note good = neighbour_basis_required [OF h m(1), where cfg = cfg1 and loc_rhs = "[0]"]
  note bad = neighbour_basis_required [OF h mb(1), where cfg = cfg1 and loc_rhs = "[0]"]
  have g: "fst (ar_cell mesh1 cfg1 0 0 asm0) = Inr ()" "fst (ar1_cell mesh1 0 0 asm0) = Inr ()"
    "fst (diff_cell mesh1 cfg1 0 0 asm0) = Inr ()"
    using good by (simp_all add: m)
  have b: "fst (ar_cell mesh1b cfg1 0 0 asm0) \<noteq> Inr ()" "fst (ar1_cell mesh1b 0 0 asm0) \<noteq> Inr ()"
    "fst (diff_cell mesh1b cfg1 0 0 asm0) \<noteq> Inr ()"
    using bad by (simp_all add: mb)
  have "make_basis mesh1b (fst (neighbour_via mesh1b 0 0)) 0 = None" by (simp add: mb)
  with bad have f: "fst (ar_face mesh1b cfg1 0 0 basis1 0 asm0) = Inl Basis_undefined"
    "fst (ar1_face mesh1b 0 0 basis1 0 asm0) = Inl Basis_undefined"
    "fst (diff_face mesh1b cfg1 0 0 basis1 0 ([0], asm0)) = Inl Basis_undefined"
    by blast+
  show ?thesis using h m mb g b f by simp
qed

end
